theory Spec2Isabelle
  imports Complex_Main "HOL-Library.Multiset"
begin

section \<open>Python string primitives used by \<open>debate.py\<close>\<close>

text \<open>
  Python strings are modelled as \<open>string\<close> (lists of characters). The functions below
  are the built-in operations that \<open>extract_spec\<close> and \<open>call_single_model\<close> apply:
  the substring test \<open>m in s\<close>, \<open>s.find(m)\<close>, the slice \<open>s[a:b]\<close> and \<open>s.strip()\<close>.
\<close>

fun startswith :: "string \<Rightarrow> string \<Rightarrow> bool" where
  "startswith s [] = True"
| "startswith [] (c # m) = False"
| "startswith (x # s) (c # m) = (x = c \<and> startswith s m)"

text \<open>The lowest index at which \<open>m\<close> occurs in \<open>s\<close>, if any.\<close>

fun find_first :: "string \<Rightarrow> string \<Rightarrow> nat option" where
  "find_first [] m = (if m = [] then Some 0 else None)"
| "find_first (x # s) m =
     (if startswith (x # s) m then Some 0 else map_option Suc (find_first s m))"

text \<open>\<open>s.find(m)\<close>: the lowest index, or \<open>-1\<close> when \<open>m\<close> does not occur.\<close>

definition find_str :: "string \<Rightarrow> string \<Rightarrow> int" where
  "find_str s m = (case find_first s m of None \<Rightarrow> - 1 | Some i \<Rightarrow> int i)"

text \<open>\<open>m in s\<close>.\<close>

definition contains :: "string \<Rightarrow> string \<Rightarrow> bool" where
  "contains m s = (find_first s m \<noteq> None)"

text \<open>\<open>s[a:b]\<close> with Python's clamping of out-of-range and negative bounds.\<close>

definition slice :: "string \<Rightarrow> int \<Rightarrow> int \<Rightarrow> string" where
  "slice s a b =
     (let n = int (length s);
          lo = (if a < 0 then max 0 (n + a) else min a n);
          hi = (if b < 0 then max 0 (n + b) else min b n)
      in take (nat (hi - lo)) (drop (nat lo) s))"

text \<open>
  A character stands for the code point of the same number, so the strings modelled are
  those over the code points below 256. The characters \<open>str.strip()\<close> removes are those
  for which \<open>str.isspace\<close> holds: tab, line feed, vertical tab, form feed, carriage
  return, the four separators \<open>0x1C..0x1F\<close>, the space, next line \<open>0x85\<close> and the
  no-break space \<open>0xA0\<close>.
\<close>

definition whitespace :: "char list" where
  "whitespace = [CHR 0x09, CHR 0x0A, CHR 0x0B, CHR 0x0C, CHR 0x0D,
                 CHR 0x1C, CHR 0x1D, CHR 0x1E, CHR 0x1F, CHR '' '', CHR 0x85, CHR 0xA0]"

definition isspace :: "char \<Rightarrow> bool" where
  "isspace c = (c \<in> set whitespace)"

definition strip :: "string \<Rightarrow> string" where
  "strip s = rev (dropWhile isspace (rev (dropWhile isspace s)))"

section \<open>Extraction of the revised strategy\<close>

text \<open>
  \<^verbatim>\<open>
  def extract_spec(response: str) -> Optional[str]:
      if "[SPEC]" not in response or "[/SPEC]" not in response:
          return None
      start = response.find("[SPEC]") + len("[SPEC]")
      end = response.find("[/SPEC]")
      return response[start:end].strip()
  \<close>
\<close>

definition extract_spec :: "string \<Rightarrow> string option" where
  "extract_spec response =
     (if \<not> contains ''[SPEC]'' response \<or> \<not> contains ''[/SPEC]'' response then None
      else let start = find_str response ''[SPEC]'' + int (length ''[SPEC]'');
               end = find_str response ''[/SPEC]''
           in Some (strip (slice response start end)))"

section \<open>Responses and the cost tracker\<close>

text \<open>
  The dataclass \<open>ModelResponse\<close>. Python's \<open>float\<close> cost is modelled by an exact
  rational: the arithmetic below is the arithmetic of the source without rounding.
\<close>

record ModelResponse =
  model :: string
  response :: string
  agreed :: bool
  spec :: "string option"
  error :: "string option"
  input_tokens :: int
  output_tokens :: int
  cost :: rat

text \<open>Cost per one million tokens: the entries of \<open>MODEL_COSTS\<close> and \<open>DEFAULT_COST\<close>.\<close>

record Price =
  input_price :: rat
  output_price :: rat

definition MODEL_COSTS :: "string \<rightharpoonup> Price" where
  "MODEL_COSTS =
     [''gpt-5.2'' \<mapsto> \<lparr>input_price = 175 / 100, output_price = 14\<rparr>,
      ''gpt-5.2-pro'' \<mapsto> \<lparr>input_price = 15, output_price = 60\<rparr>,
      ''o1'' \<mapsto> \<lparr>input_price = 15, output_price = 60\<rparr>,
      ''claude-opus-4-5'' \<mapsto> \<lparr>input_price = 5, output_price = 25\<rparr>]"

definition DEFAULT_COST :: Price where
  "DEFAULT_COST = \<lparr>input_price = 5, output_price = 15\<rparr>"

text \<open>One value of the dictionary \<open>by_model\<close>.\<close>

record ModelTotals =
  sub_input_tokens :: int
  sub_output_tokens :: int
  sub_cost :: rat

record CostTracker =
  total_input_tokens :: int
  total_output_tokens :: int
  total_cost :: rat
  by_model :: "string \<rightharpoonup> ModelTotals"

text \<open>The tracker as the module creates it: \<open>cost_tracker = CostTracker()\<close>.\<close>

definition cost_tracker :: CostTracker where
  "cost_tracker = \<lparr>total_input_tokens = 0, total_output_tokens = 0, total_cost = 0,
                    by_model = Map.empty\<rparr>"

text \<open>
  \<open>CostTracker.add\<close>: the statements of the method in their order; the result is the
  returned cost and the tracker after the call.
\<close>

definition add :: "CostTracker \<Rightarrow> string \<Rightarrow> int \<Rightarrow> int \<Rightarrow> rat \<times> CostTracker" where
  "add self m inp out =
     (let costs = (case MODEL_COSTS m of Some c \<Rightarrow> c | None \<Rightarrow> DEFAULT_COST);
          c = of_int inp / 1000000 * input_price costs
              + of_int out / 1000000 * output_price costs;
          self1 = self\<lparr>total_input_tokens := total_input_tokens self + inp\<rparr>;
          self2 = self1\<lparr>total_output_tokens := total_output_tokens self1 + out\<rparr>;
          self3 = self2\<lparr>total_cost := total_cost self2 + c\<rparr>;
          self4 = (if m \<notin> dom (by_model self3)
                   then self3\<lparr>by_model := (by_model self3)
                          (m \<mapsto> \<lparr>sub_input_tokens = 0, sub_output_tokens = 0, sub_cost = 0\<rparr>)\<rparr>
                   else self3);
          e = (case by_model self4 m of Some t \<Rightarrow> t
               | None \<Rightarrow> \<lparr>sub_input_tokens = 0, sub_output_tokens = 0, sub_cost = 0\<rparr>);
          e1 = e\<lparr>sub_input_tokens := sub_input_tokens e + inp\<rparr>;
          e2 = e1\<lparr>sub_output_tokens := sub_output_tokens e1 + out\<rparr>;
          e3 = e2\<lparr>sub_cost := sub_cost e2 + c\<rparr>
      in (c, self4\<lparr>by_model := (by_model self4)(m \<mapsto> e3)\<rparr>))"

section \<open>One invocation with retries\<close>

definition MAX_RETRIES :: nat where
  "MAX_RETRIES = 3"

definition RETRY_BASE_DELAY :: rat where
  "RETRY_BASE_DELAY = 1"

text \<open>
  What one call of \<open>completion\<close> together with the rest of the \<open>try\<close> block's reads
  does: it raises an exception whose \<open>str\<close> is the given message, or it delivers the
  message content and, when \<open>response.usage\<close> is present, the prompt and completion
  token counts. An invocation is given the outcome of each of its calls, by attempt
  number.
\<close>

datatype completion_result =
  Raised string
| Completed string "(int \<times> int) option"

text \<open>The effects of an invocation that a caller can observe besides its result.\<close>

datatype event =
  Attempt nat
| Sleep rat

text \<open>
  The body of the \<open>try\<close> block. \<open>Inl\<close> carries \<open>str(e)\<close> of the exception caught by
  \<open>except Exception\<close>; \<open>Inr\<close> is the returned response and the tracker after
  \<open>cost_tracker.add\<close>.
\<close>

fun try_body :: "string \<Rightarrow> completion_result \<Rightarrow> CostTracker
                 \<Rightarrow> string + (ModelResponse \<times> CostTracker)" where
  "try_body m (Raised e) tr = Inl e"
| "try_body m (Completed content usage) tr =
     (let ag = contains ''[AGREE]'' content;
          extracted = extract_spec content;
          inp = (case usage of Some (p, c) \<Rightarrow> p | None \<Rightarrow> 0);
          out = (case usage of Some (p, c) \<Rightarrow> c | None \<Rightarrow> 0);
          (c, tr') = add tr m inp out
      in Inr (\<lparr>model = m, response = content, agreed = ag, spec = extracted,
               error = None, input_tokens = inp, output_tokens = out, cost = c\<rparr>, tr'))"

text \<open>
  The loop \<open>for attempt in range(MAX_RETRIES)\<close> over the remaining attempt numbers,
  with \<open>last_error\<close>, the tracker and the events so far as its state; the first
  equation is the \<open>return\<close> after the loop.
\<close>

fun attempts :: "string \<Rightarrow> (nat \<Rightarrow> completion_result) \<Rightarrow> nat list \<Rightarrow> string option
                 \<Rightarrow> CostTracker \<Rightarrow> event list \<Rightarrow> ModelResponse \<times> CostTracker \<times> event list" where
  "attempts m completion [] last_error tr evs =
     (\<lparr>model = m, response = [], agreed = False, spec = None, error = last_error,
       input_tokens = 0, output_tokens = 0, cost = 0\<rparr>, tr, evs)"
| "attempts m completion (attempt # rest) last_error tr evs =
     (case try_body m (completion attempt) tr of
        Inr (r, tr') \<Rightarrow> (r, tr', evs @ [Attempt attempt])
      | Inl e \<Rightarrow>
          if attempt < MAX_RETRIES - 1
          then attempts m completion rest (Some e) tr
                 (evs @ [Attempt attempt, Sleep (RETRY_BASE_DELAY * 2 ^ attempt)])
          else attempts m completion rest (Some e) tr (evs @ [Attempt attempt]))"

definition call_single_model :: "string \<Rightarrow> (nat \<Rightarrow> completion_result) \<Rightarrow> CostTracker
                                 \<Rightarrow> ModelResponse \<times> CostTracker \<times> event list" where
  "call_single_model m completion tr = attempts m completion [0..<MAX_RETRIES] None tr []"

section \<open>One round over the roster\<close>

datatype failure =
  SysExit nat
| ValueError
| FileNotFoundError
| OSError

text \<open>
  \<open>concurrent.futures.as_completed\<close> yields the futures in the order in which they
  finish, which the program does not determine. The schedule says which of the futures
  still pending finishes next (an index into the pending ones, taken modulo their
  number); when the schedule is used up the rest finish in the order of submission.
\<close>

primrec as_completed :: "nat list \<Rightarrow> 'a list \<Rightarrow> 'a list" where
  "as_completed [] pending = pending"
| "as_completed (k # ks) pending =
     (if pending = [] then []
      else let i = k mod length pending
           in pending ! i # as_completed ks (take i pending @ drop (Suc i) pending))"

text \<open>
  The invocations in the order in which they finish, each adding to the shared tracker.
\<close>

fun collect :: "(string \<times> (nat \<Rightarrow> completion_result)) list \<Rightarrow> CostTracker
                \<Rightarrow> ModelResponse list \<times> CostTracker" where
  "collect [] tr = ([], tr)"
| "collect ((m, completion) # fs) tr =
     (case call_single_model m completion tr of
        (r, tr', evs) \<Rightarrow> (case collect fs tr' of (rs, tr'') \<Rightarrow> (r # rs, tr'')))"

text \<open>
  \<open>call_models_parallel\<close>: one future per roster entry, submitted in roster order;
  \<open>results\<close> is appended to as the futures complete.
  \<open>ThreadPoolExecutor(max_workers=0)\<close> raises \<open>ValueError\<close>.
\<close>

definition call_models_parallel :: "string list \<Rightarrow> (nat \<Rightarrow> nat \<Rightarrow> completion_result) \<Rightarrow> nat list
     \<Rightarrow> CostTracker \<Rightarrow> failure + (ModelResponse list \<times> CostTracker)" where
  "call_models_parallel models completions schedule tr =
     (if length models \<le> 0 then Inl ValueError
      else let futures = zip models (map completions [0..<length models])
           in Inr (collect (as_completed schedule futures) tr))"

section \<open>Consensus and the next strategy\<close>

text \<open>The truth value Python gives an \<open>Optional[str]\<close>: \<open>None\<close> and \<open>""\<close> are false.\<close>

definition truthy :: "string option \<Rightarrow> bool" where
  "truthy x = (case x of None \<Rightarrow> False | Some s \<Rightarrow> s \<noteq> [])"

definition successful :: "ModelResponse list \<Rightarrow> ModelResponse list" where
  "successful results = filter (\<lambda>r. \<not> truthy (error r)) results"

definition all_agreed :: "ModelResponse list \<Rightarrow> bool" where
  "all_agreed results =
     (if successful results \<noteq> [] then list_all agreed (successful results) else False)"

text \<open>
  \<^verbatim>\<open>
  latest_spec = spec
  for r in successful:
      if r.spec:
          latest_spec = r.spec
          break
  \<close>
\<close>

fun latest_spec :: "string \<Rightarrow> ModelResponse list \<Rightarrow> string" where
  "latest_spec current [] = current"
| "latest_spec current (r # rs) =
     (case spec r of
        Some s \<Rightarrow> if s \<noteq> [] then s else latest_spec current rs
      | None \<Rightarrow> latest_spec current rs)"

section \<open>Sessions and the critique action\<close>

text \<open>
  One entry of \<open>history\<close>: the dictionary with the keys \<open>round\<close>, \<open>all_agreed\<close> and
  \<open>models\<close>, the last a list of (\<open>model\<close>, \<open>agreed\<close>, \<open>error\<close>) per result.
\<close>

record HistoryEntry =
  entry_round :: int
  entry_all_agreed :: bool
  entry_models :: "(string \<times> bool \<times> string option) list"

record SessionState =
  session_id :: string
  session_spec :: string
  session_round :: int
  session_models :: "string list"
  focus :: "string option"
  persona :: "string option"
  preserve_intent :: bool
  created_at :: string
  updated_at :: string
  history :: "HistoryEntry list"

text \<open>
  What the critique action reads and writes outside its arguments: the files of
  \<open>SESSIONS_DIR\<close> by session id (a file holds the JSON of the whole record, which
  \<open>load\<close> reads back unchanged), the files of \<open>CHECKPOINTS_DIR\<close> by prefix and round, the
  module's \<open>cost_tracker\<close>, and \<open>datetime.now().isoformat()\<close> as a clock read once per
  call. Creating the directory and writing the file raise an \<open>OSError\<close> when the file
  system refuses (a session id that is not a file name in an existing directory, such
  as \<open>a/b\<close>, a missing permission): whether the session file of an id, and the
  checkpoint file of a prefix and round, can be written is given with the world.
\<close>

record world =
  sessions :: "string \<rightharpoonup> SessionState"
  checkpoints :: "(string \<times> int) \<rightharpoonup> string"
  tracker :: CostTracker
  clock :: "nat \<Rightarrow> string"
  ticks :: nat
  session_writable :: "string \<Rightarrow> bool"
  checkpoint_writable :: "string \<times> int \<Rightarrow> bool"

definition now :: "world \<Rightarrow> string \<times> world" where
  "now w = (clock w (ticks w), w\<lparr>ticks := Suc (ticks w)\<rparr>)"

definition save :: "SessionState \<Rightarrow> world \<Rightarrow> failure + (SessionState \<times> world)" where
  "save self w =
     (case now w of (t, w1) \<Rightarrow>
        let self1 = self\<lparr>updated_at := t\<rparr>
        in if session_writable w1 (session_id self1)
           then Inr (self1, w1\<lparr>sessions := (sessions w1)(session_id self1 \<mapsto> self1)\<rparr>)
           else Inl OSError)"

definition load :: "string \<Rightarrow> world \<Rightarrow> failure + SessionState" where
  "load sid w = (case sessions w sid of None \<Rightarrow> Inl FileNotFoundError | Some st \<Rightarrow> Inr st)"

definition save_checkpoint :: "string \<Rightarrow> int \<Rightarrow> string option \<Rightarrow> world \<Rightarrow> failure + world" where
  "save_checkpoint sp round_num sid w =
     (let prefix = (case sid of Some i \<Rightarrow> if i \<noteq> [] then i @ ''-'' else [] | None \<Rightarrow> [])
      in if checkpoint_writable w (prefix, round_num)
         then Inr (w\<lparr>checkpoints := (checkpoints w)((prefix, round_num) \<mapsto> sp)\<rparr>)
         else Inl OSError)"

text \<open>The command line after \<open>argparse\<close> and the profile have filled it in.\<close>

record Args =
  args_models :: string
  args_round :: int
  args_focus :: "string option"
  args_persona :: "string option"
  args_preserve_intent :: bool
  args_session :: "string option"
  args_resume :: "string option"

text \<open>\<open>s.split(sep)\<close> for a one-character separator, and \<open>sep.join(xs)\<close>.\<close>

fun split :: "char \<Rightarrow> string \<Rightarrow> string list" where
  "split sep [] = [[]]"
| "split sep (c # cs) =
     (if c = sep then [] # split sep cs
      else (case split sep cs of [] \<Rightarrow> [[c]] | w # ws \<Rightarrow> (c # w) # ws))"

fun join :: "string \<Rightarrow> string list \<Rightarrow> string" where
  "join sep [] = []"
| "join sep [x] = x"
| "join sep (x # y # ys) = x @ sep @ join sep (y # ys)"

text \<open>\<open>[m.strip() for m in args.models.split(",") if m.strip()]\<close>\<close>

definition parse_models :: "string \<Rightarrow> string list" where
  "parse_models s = filter (\<lambda>m. m \<noteq> []) (map strip (split CHR '','' s))"

text \<open>
  The branch \<open>if args.resume\<close>: the session is loaded and overrides the arguments; a
  missing session exits with status 2.
\<close>

definition resume :: "string \<Rightarrow> Args \<Rightarrow> world
    \<Rightarrow> failure + (SessionState option \<times> string \<times> Args \<times> string list)" where
  "resume rid args w =
     (case load rid w of
        Inl e \<Rightarrow> Inl (SysExit 2)
      | Inr st \<Rightarrow>
          let args1 = args\<lparr>args_round := session_round st\<rparr>;
              args2 = args1\<lparr>args_models := join '','' (session_models st)\<rparr>;
              args3 = (if truthy (focus st) then args2\<lparr>args_focus := focus st\<rparr> else args2);
              args4 = (if truthy (persona st) then args3\<lparr>args_persona := persona st\<rparr>
                       else args3);
              args5 = (if preserve_intent st
                       then args4\<lparr>args_preserve_intent := preserve_intent st\<rparr> else args4)
          in Inr (Some st, session_spec st, args5, session_models st))"

text \<open>The \<open>else\<close> branch: the strategy is read from standard input and must not be empty.\<close>

definition read_stdin :: "string \<Rightarrow> Args \<Rightarrow> string list
    \<Rightarrow> failure + (SessionState option \<times> string \<times> Args \<times> string list)" where
  "read_stdin stdin args models =
     (let sp = strip stdin in if sp = [] then Inl (SysExit 1) else Inr (None, sp, args, models))"

text \<open>
  \<open>if args.session and not session_state\<close>: a new session is created and saved; the
  exception of a failed write is not caught.
\<close>

definition init_session :: "SessionState option \<Rightarrow> string \<Rightarrow> Args \<Rightarrow> string list \<Rightarrow> world
    \<Rightarrow> failure + (SessionState option \<times> world)" where
  "init_session session_state sp args models w =
     (case session_state of
        Some st \<Rightarrow> Inr (session_state, w)
      | None \<Rightarrow>
          (case args_session args of
             None \<Rightarrow> Inr (session_state, w)
           | Some sid \<Rightarrow>
               if sid = [] then Inr (session_state, w)
               else (case now w of (t, w1) \<Rightarrow>
                 (case save \<lparr>session_id = sid, session_spec = sp, session_round = args_round args,
                              session_models = models, focus = args_focus args,
                              persona = args_persona args,
                              preserve_intent = args_preserve_intent args,
                              created_at = t, updated_at = [], history = []\<rparr> w1 of
                    Inl e \<Rightarrow> Inl e
                  | Inr (st, w2) \<Rightarrow> Inr (Some st, w2)))))"

text \<open>What the action has computed when it prints its report.\<close>

record Outcome =
  out_all_agreed :: bool
  out_round :: int
  out_models :: "string list"
  out_results :: "ModelResponse list"
  out_latest_spec :: string

text \<open>
  The part of \<open>main\<close> from the call of \<open>call_models_parallel\<close> to the update of the
  session state: the round, the checkpoint, the choice of the next strategy, the save.
\<close>

definition run_round :: "SessionState option \<Rightarrow> string \<Rightarrow> Args \<Rightarrow> string list
    \<Rightarrow> (nat \<Rightarrow> nat \<Rightarrow> completion_result) \<Rightarrow> nat list \<Rightarrow> world \<Rightarrow> failure + (Outcome \<times> world)" where
  "run_round session_state sp args models completions schedule w =
     (case call_models_parallel models completions schedule (tracker w) of
        Inl e \<Rightarrow> Inl e
      | Inr (results, tr) \<Rightarrow>
          let w1 = w\<lparr>tracker := tr\<rparr>;
              agreed_all = all_agreed results;
              sid = (case session_state of Some st \<Rightarrow> Some (session_id st)
                     | None \<Rightarrow> args_session args)
          in (case (if truthy sid \<or> truthy (args_session args)
                    then save_checkpoint sp (args_round args) sid w1 else Inr w1) of
                Inl e \<Rightarrow> Inl e
              | Inr w2 \<Rightarrow>
                  let latest = latest_spec sp (successful results);
                      out = \<lparr>out_all_agreed = agreed_all, out_round = args_round args,
                             out_models = models, out_results = results,
                             out_latest_spec = latest\<rparr>
                  in (case session_state of
                        None \<Rightarrow> Inr (out, w2)
                      | Some st \<Rightarrow>
                          (case save (st\<lparr>session_spec := latest,
                                         session_round := args_round args + 1,
                                         history := history st @
                                           [\<lparr>entry_round = args_round args,
                                             entry_all_agreed = agreed_all,
                                             entry_models =
                                               map (\<lambda>r. (model r, agreed r, error r)) results\<rparr>]\<rparr>)
                                    w2 of
                             Inl e \<Rightarrow> Inl e
                           | Inr (st', w3) \<Rightarrow> Inr (out, w3)))))"

text \<open>The critique action of \<open>main\<close>.\<close>

definition main :: "Args \<Rightarrow> string \<Rightarrow> (nat \<Rightarrow> nat \<Rightarrow> completion_result) \<Rightarrow> nat list \<Rightarrow> world
    \<Rightarrow> failure + (Outcome \<times> world)" where
  "main args stdin completions schedule w =
     (let models = parse_models (args_models args)
      in if models = [] then Inl (SysExit 1)
         else (case (if truthy (args_resume args)
                     then resume (case args_resume args of Some rid \<Rightarrow> rid | None \<Rightarrow> []) args w
                     else read_stdin stdin args models) of
                 Inl e \<Rightarrow> Inl e
               | Inr (session_state, sp, args', models') \<Rightarrow>
                   (case init_session session_state sp args' models' w of
                      Inl e \<Rightarrow> Inl e
                    | Inr (session_state', w1) \<Rightarrow>
                        run_round session_state' sp args' models' completions schedule w1)))"

section \<open>Notions used to state the properties\<close>

text \<open>
  \<open>m\<close> occurs in \<open>s\<close> at index \<open>i\<close>; \<open>i\<close> is the first such index. These do not
  mention \<open>find_first\<close>: the first lemmas below show that \<open>find_first\<close> computes them.
\<close>

definition occurs_at :: "string \<Rightarrow> string \<Rightarrow> nat \<Rightarrow> bool" where
  "occurs_at s m i = (i + length m \<le> length s \<and> take (length m) (drop i s) = m)"

definition first_occurrence :: "string \<Rightarrow> string \<Rightarrow> nat \<Rightarrow> bool" where
  "first_occurrence s m i = (occurs_at s m i \<and> (\<forall>j<i. \<not> occurs_at s m j))"

text \<open>
  The events of an invocation whose attempts \<open>0..k-1\<close> failed and whose attempt \<open>k\<close> was
  its last: each failed attempt is followed by the sleep \<open>RETRY_BASE_DELAY * 2 ^ attempt\<close>.
\<close>

definition retry_events :: "nat \<Rightarrow> event list" where
  "retry_events k =
     concat (map (\<lambda>a. [Attempt a, Sleep (RETRY_BASE_DELAY * 2 ^ a)]) [0..<k]) @ [Attempt k]"

fun is_attempt :: "event \<Rightarrow> bool" where
  "is_attempt (Attempt a) = True"
| "is_attempt (Sleep d) = False"

text \<open>The response returned after the loop, for a given \<open>last_error\<close>.\<close>

definition error_response :: "string \<Rightarrow> string option \<Rightarrow> ModelResponse" where
  "error_response m e =
     \<lparr>model = m, response = [], agreed = False, spec = None, error = e,
      input_tokens = 0, output_tokens = 0, cost = 0\<rparr>"

text \<open>
  The price that applies to a model, the entry of \<open>by_model\<close> for a model (zero when the
  model has none yet), and the cost of a number of tokens at a price.
\<close>

definition price_of :: "string \<Rightarrow> Price" where
  "price_of m = (case MODEL_COSTS m of Some p \<Rightarrow> p | None \<Rightarrow> DEFAULT_COST)"

definition subtotal :: "CostTracker \<Rightarrow> string \<Rightarrow> ModelTotals" where
  "subtotal tr m =
     (case by_model tr m of Some t \<Rightarrow> t
      | None \<Rightarrow> \<lparr>sub_input_tokens = 0, sub_output_tokens = 0, sub_cost = 0\<rparr>)"

definition incremental_cost :: "Price \<Rightarrow> int \<Rightarrow> int \<Rightarrow> rat" where
  "incremental_cost p inp out =
     of_int inp / 1000000 * input_price p + of_int out / 1000000 * output_price p"

text \<open>
  The response an invocation returns. It does not depend on the tracker the invocation
  starts from (lemma \<open>response_tracker_free\<close>), so the fresh tracker is used here.
\<close>

definition response_of :: "string \<Rightarrow> (nat \<Rightarrow> completion_result) \<Rightarrow> ModelResponse" where
  "response_of m completion = fst (call_single_model m completion cost_tracker)"

text \<open>
  The responses of a round: the responses of the roster entries, in the order in which
  the schedule lets the invocations complete.
\<close>

definition round_results :: "string list \<Rightarrow> (nat \<Rightarrow> nat \<Rightarrow> completion_result) \<Rightarrow> nat list
     \<Rightarrow> ModelResponse list" where
  "round_results models completions schedule =
     as_completed schedule
       (map (\<lambda>i. response_of (models ! i) (completions i)) [0..<length models])"

text \<open>What a history entry records of a response.\<close>

definition summary :: "ModelResponse \<Rightarrow> string \<times> bool \<times> string option" where
  "summary r = (model r, agreed r, error r)"

text \<open>The session record written after a round with the given outcome at time \<open>t\<close>.\<close>

definition persisted :: "SessionState \<Rightarrow> Outcome \<Rightarrow> string \<Rightarrow> SessionState" where
  "persisted st out t =
     st\<lparr>session_spec := out_latest_spec out,
        session_round := out_round out + 1,
        history := history st @
          [\<lparr>entry_round = out_round out, entry_all_agreed = out_all_agreed out,
            entry_models = map summary (out_results out)\<rparr>],
        updated_at := t\<rparr>"

text \<open>
  The choice of the next strategy as the specification words it: the first non-empty
  extraction among the error-free responses taken in the order of the roster.
\<close>

definition declared_order_choice :: "string \<Rightarrow> string list \<Rightarrow> (nat \<Rightarrow> nat \<Rightarrow> completion_result)
     \<Rightarrow> string" where
  "declared_order_choice current models completions =
     latest_spec current
       (successful (map (\<lambda>i. response_of (models ! i) (completions i)) [0..<length models]))"

text \<open>No stored session has an empty strategy.\<close>

definition sessions_nonempty :: "world \<Rightarrow> bool" where
  "sessions_nonempty w = (\<forall>sid st. sessions w sid = Some st \<longrightarrow> session_spec st \<noteq> [])"

text \<open>
  The session record that \<open>main\<close> creates for \<open>--session\<close> and saves at once: \<open>t\<close> is
  the time of creation and \<open>t'\<close> the time of that first save.
\<close>

definition created :: "string \<Rightarrow> string \<Rightarrow> Args \<Rightarrow> string list \<Rightarrow> string \<Rightarrow> string \<Rightarrow> SessionState" where
  "created sid sp args models t t' =
     \<lparr>session_id = sid, session_spec = sp, session_round = args_round args,
      session_models = models, focus = args_focus args, persona = args_persona args,
      preserve_intent = args_preserve_intent args, created_at = t, updated_at = t',
      history = []\<rparr>"

section \<open>Inputs of the examples\<close>

text \<open>
  A first run: no session stored, the fresh tracker, a clock, and a file system that
  takes every name without a slash.
\<close>

definition initial_world :: world where
  "initial_world =
     \<lparr>sessions = Map.empty, checkpoints = Map.empty, tracker = cost_tracker,
      clock = (\<lambda>n. ''2026-01-15T10:00:00''), ticks = 0,
      session_writable = (\<lambda>sid. CHR ''/'' \<notin> set sid),
      checkpoint_writable = (\<lambda>(prefix, n). CHR ''/'' \<notin> set prefix)\<rparr>"

text \<open>A command line that names the session \<open>s1\<close> and two critics, and a stored session.\<close>

definition example_args :: Args where
  "example_args =
     \<lparr>args_models = ''critic1,critic2'', args_round = 1, args_focus = None,
      args_persona = None, args_preserve_intent = False, args_session = Some ''s1'',
      args_resume = None\<rparr>"

definition example_session :: SessionState where
  "example_session =
     \<lparr>session_id = ''s1'', session_spec = ''X'', session_round = 1,
      session_models = [''critic1'', ''critic2''], focus = None, persona = None,
      preserve_intent = False, created_at = ''2026-01-15T09:00:00'',
      updated_at = ''2026-01-15T09:00:00'', history = []\<rparr>"

text \<open>
  Behaviours of the completion calls by roster index: the scenario of the specification;
  two critics that both offer a revision; one critic that agrees and one whose attempts
  all fail with an empty message.
\<close>

definition scenario :: "nat \<Rightarrow> nat \<Rightarrow> completion_result" where
  "scenario i n =
     (if i = 0 then Completed ''[AGREE]'' None
      else Completed ''Too vague. [SPEC]Revised V2[/SPEC]'' None)"

definition two_revisions :: "nat \<Rightarrow> nat \<Rightarrow> completion_result" where
  "two_revisions i n =
     (if i = 0 then Completed ''[SPEC]VA[/SPEC]'' None else Completed ''[SPEC]VB[/SPEC]'' None)"

definition agree_and_silent_failure :: "nat \<Rightarrow> nat \<Rightarrow> completion_result" where
  "agree_and_silent_failure i n = (if i = 0 then Completed ''[AGREE]'' None else Raised [])"

text \<open>A command line that resumes \<open>s1\<close>, and a store that holds that session.\<close>

definition resume_args :: Args where
  "resume_args = example_args\<lparr>args_session := None, args_resume := Some ''s1''\<rparr>"

definition stored_world :: world where
  "stored_world = initial_world\<lparr>sessions := [''s1'' \<mapsto> example_session]\<rparr>"

text \<open>
  A store in which \<open>s1\<close> has already run four rounds, and a command line whose session
  id names a file in a directory that does not exist.
\<close>

definition old_session :: SessionState where
  "old_session =
     example_session\<lparr>session_round := 5,
       history := [\<lparr>entry_round = 4, entry_all_agreed = False, entry_models = []\<rparr>]\<rparr>"

definition old_world :: world where
  "old_world = initial_world\<lparr>sessions := [''s1'' \<mapsto> old_session]\<rparr>"

definition slash_args :: Args where
  "slash_args = example_args\<lparr>args_session := Some ''a/b''\<rparr>"

text \<open>
  The two rounds the specification gives for consensus: \<open>A\<close> agrees and every attempt of
  \<open>B\<close> fails with a message; \<open>A\<close> agrees and \<open>B\<close> answers with a critique.
\<close>

definition agree_and_failure :: "nat \<Rightarrow> nat \<Rightarrow> completion_result" where
  "agree_and_failure i n = (if i = 0 then Completed ''[AGREE]'' None else Raised ''timeout'')"

definition agree_and_critique :: "nat \<Rightarrow> nat \<Rightarrow> completion_result" where
  "agree_and_critique i n =
     (if i = 0 then Completed ''[AGREE]'' None else Completed ''The diagnosis is weak.'' None)"

section \<open>Extraction: what \<open>extract_spec\<close> returns\<close>

lemma startswith_iff: "startswith s m \<longleftrightarrow> occurs_at s m 0"
  by (induction s m rule: startswith.induct) (auto simp: occurs_at_def)

lemma occurs_at_Cons_Suc: "occurs_at (x # s) m (Suc i) \<longleftrightarrow> occurs_at s m i"
  by (simp add: occurs_at_def)

lemma occurs_at_Nil: "occurs_at [] m i \<longleftrightarrow> m = [] \<and> i = 0"
  by (auto simp: occurs_at_def)

lemma first_occurrence_Cons:
  "first_occurrence (x # s) m i \<longleftrightarrow>
     (if occurs_at (x # s) m 0 then i = 0 else \<exists>j. i = Suc j \<and> first_occurrence s m j)"
proof (cases i)
  case 0
  then show ?thesis by (auto simp: first_occurrence_def)
next
  case (Suc k)
  have "(\<forall>j<Suc k. \<not> occurs_at (x # s) m j) \<longleftrightarrow>
        (\<not> occurs_at (x # s) m 0 \<and> (\<forall>j<k. \<not> occurs_at s m j))"
    by (auto simp: less_Suc_eq_0_disj occurs_at_Cons_Suc)
  with Suc show ?thesis
    by (auto simp: first_occurrence_def occurs_at_Cons_Suc)
qed

lemma find_first_Some: "find_first s m = Some i \<longleftrightarrow> first_occurrence s m i"
proof (induction s arbitrary: i)
  case Nil
  show ?case by (auto simp: first_occurrence_def occurs_at_Nil)
next
  case (Cons x s)
  show ?case
    by (auto simp: first_occurrence_Cons startswith_iff Cons.IH)
qed

lemma find_first_None: "find_first s m = None \<longleftrightarrow> (\<forall>i. \<not> occurs_at s m i)"
proof (induction s)
  case Nil
  show ?case by (auto simp: occurs_at_Nil)
next
  case (Cons x s)
  have "(\<forall>i. \<not> occurs_at (x # s) m i) \<longleftrightarrow>
        (\<not> occurs_at (x # s) m 0 \<and> (\<forall>i. \<not> occurs_at s m i))"
    by (metis occurs_at_Cons_Suc not0_implies_Suc)
  with Cons show ?case
    by (auto simp: startswith_iff)
qed

lemma occurs_at_nth:
  assumes a: "occurs_at s m i" and k: "k < length m"
  shows "s ! (i + k) = m ! k"
proof -
  from a have le: "i + length m \<le> length s" and eq: "take (length m) (drop i s) = m"
    by (simp_all add: occurs_at_def)
  have "s ! (i + k) = drop i s ! k" using le k by simp
  also have "\<dots> = take (length m) (drop i s) ! k" using k by simp
  finally show ?thesis by (simp only: eq)
qed

lemma markers_apart:
  assumes b: "occurs_at s ''[SPEC]'' b" and e: "occurs_at s ''[/SPEC]'' e" and lt: "b < e"
  shows "b + 6 \<le> e"
proof (rule ccontr)
  assume far: "\<not> b + 6 \<le> e"
  define k where "k = e - b"
  from lt far have k: "e = b + k" "0 < k" "k < 6" by (simp_all add: k_def)
  have "s ! (e + 0) = ''[/SPEC]'' ! 0" using occurs_at_nth [OF e, of 0] by simp
  moreover have "s ! (b + k) = ''[SPEC]'' ! k" using occurs_at_nth [OF b, of k] k by simp
  ultimately have "''[SPEC]'' ! k = CHR ''[''" using k by simp
  moreover from k have "k = 1 \<or> k = 2 \<or> k = 3 \<or> k = 4 \<or> k = 5" by arith
  ultimately show False by auto
qed

lemma extract_spec_found:
  assumes b: "find_first text ''[SPEC]'' = Some b" and e: "find_first text ''[/SPEC]'' = Some e"
  shows "extract_spec text = Some (strip (take (e - (b + 6)) (drop (b + 6) text)))"
proof -
  from b have "b + 6 \<le> length text"
    by (simp add: find_first_Some first_occurrence_def occurs_at_def)
  moreover from e have "e + 7 \<le> length text"
    by (simp add: find_first_Some first_occurrence_def occurs_at_def)
  moreover have "nat (int b + 6) = b + 6" by simp
  moreover have "nat (int e - (int b + 6)) = e - (b + 6)" by arith
  ultimately show ?thesis using b e
    by (simp add: extract_spec_def contains_def find_str_def slice_def Let_def min_def)
qed

lemma extract_spec_missing:
  "find_first text ''[SPEC]'' = None \<or> find_first text ''[/SPEC]'' = None
   \<Longrightarrow> extract_spec text = None"
  by (auto simp: extract_spec_def contains_def)

lemma strip_Nil: "strip [] = []"
  by (simp add: strip_def)

text \<open>
  \<open>strip\<close> removes whitespace at both ends and nothing else: what remains does not begin
  or end with whitespace.
\<close>

lemma strip_trims:
  "\<exists>l r. s = l @ strip s @ r \<and> (\<forall>c\<in>set l. isspace c) \<and> (\<forall>c\<in>set r. isspace c) \<and>
     (strip s \<noteq> [] \<longrightarrow> \<not> isspace (hd (strip s)) \<and> \<not> isspace (last (strip s)))"
proof -
  define l where "l = takeWhile isspace s"
  define t where "t = dropWhile isspace s"
  define r where "r = rev (takeWhile isspace (rev t))"
  have st: "strip s = rev (dropWhile isspace (rev t))" by (simp add: strip_def t_def)
  have "t = rev (rev t)" by simp
  also have "\<dots> = rev (takeWhile isspace (rev t) @ dropWhile isspace (rev t))"
    by (simp only: takeWhile_dropWhile_id)
  also have "\<dots> = strip s @ r" by (simp only: rev_append st r_def)
  finally have t: "t = strip s @ r" .
  have s: "s = l @ strip s @ r" unfolding t [symmetric] by (simp add: l_def t_def)
  have wl: "\<forall>c\<in>set l. isspace c" unfolding l_def by (auto dest: set_takeWhileD)
  have wr: "\<forall>c\<in>set r. isspace c" unfolding r_def by (auto dest: set_takeWhileD)
  have e: "strip s \<noteq> [] \<longrightarrow> \<not> isspace (hd (strip s)) \<and> \<not> isspace (last (strip s))"
  proof
    assume ne: "strip s \<noteq> []"
    then have d: "dropWhile isspace (rev t) \<noteq> []" by (simp add: st)
    then have "\<not> isspace (hd (dropWhile isspace (rev t)))" by (rule hd_dropWhile)
    with d have la: "\<not> isspace (last (strip s))" by (simp add: st last_rev)
    from ne t have tne: "t \<noteq> []" by auto
    then have "\<not> isspace (hd t)" unfolding t_def by (rule hd_dropWhile)
    with t ne have "\<not> isspace (hd (strip s))" by (metis hd_append2)
    with la show "\<not> isspace (hd (strip s)) \<and> \<not> isspace (last (strip s))" by simp
  qed
  from s wl wr e show ?thesis by blast
qed

text \<open>
  Claim C7. When both markers occur and the first \<open>[SPEC]\<close> stands before the first
  \<open>[/SPEC]\<close>, the text splits around exactly these two occurrences and \<open>extract_spec\<close>
  returns the part strictly between them without its leading and trailing whitespace:
  the part is whitespace, the result, whitespace, and the result neither begins nor ends
  with whitespace. When either marker does not occur, it returns \<open>None\<close>.
\<close>

theorem extract_spec_between:
  "(first_occurrence text ''[SPEC]'' b \<and> first_occurrence text ''[/SPEC]'' e \<and> b < e \<longrightarrow>
      (\<exists>pre mid post l res r.
         text = pre @ ''[SPEC]'' @ mid @ ''[/SPEC]'' @ post \<and>
         length pre = b \<and> length (pre @ ''[SPEC]'' @ mid) = e \<and>
         mid = l @ res @ r \<and> (\<forall>c\<in>set l. isspace c) \<and> (\<forall>c\<in>set r. isspace c) \<and>
         (res \<noteq> [] \<longrightarrow> \<not> isspace (hd res) \<and> \<not> isspace (last res)) \<and>
         extract_spec text = Some res)) \<and>
   ((\<forall>i. \<not> occurs_at text ''[SPEC]'' i) \<or> (\<forall>i. \<not> occurs_at text ''[/SPEC]'' i) \<longrightarrow>
      extract_spec text = None)"
proof (intro conjI impI)
  assume h: "first_occurrence text ''[SPEC]'' b \<and> first_occurrence text ''[/SPEC]'' e \<and> b < e"
  then have ob: "occurs_at text ''[SPEC]'' b" and oe: "occurs_at text ''[/SPEC]'' e" and lt: "b < e"
    by (simp_all add: first_occurrence_def)
  have apart: "b + 6 \<le> e" by (rule markers_apart [OF ob oe lt])
  define pre where "pre = take b text"
  define mid where "mid = take (e - (b + 6)) (drop (b + 6) text)"
  define post where "post = drop (e + 7) text"
  have l6: "length ''[SPEC]'' = 6" and l7: "length ''[/SPEC]'' = 7" by simp_all
  from ob have tb: "take 6 (drop b text) = ''[SPEC]''" and lb: "b + 6 \<le> length text"
    unfolding occurs_at_def l6 by blast+
  from oe have te: "take 7 (drop e text) = ''[/SPEC]''" and le: "e + 7 \<le> length text"
    unfolding occurs_at_def l7 by blast+
  have "text = take b text @ drop b text" by simp
  also have "drop b text = take 6 (drop b text) @ drop 6 (drop b text)"
    by (simp only: append_take_drop_id)
  also have "drop 6 (drop b text) = drop (b + 6) text" by (simp add: add.commute)
  also have "drop (b + 6) text = mid @ drop (e - (b + 6)) (drop (b + 6) text)"
    by (simp only: mid_def append_take_drop_id)
  also have "drop (e - (b + 6)) (drop (b + 6) text) = drop e text" using apart by simp
  also have "drop e text = take 7 (drop e text) @ drop 7 (drop e text)"
    by (simp only: append_take_drop_id)
  also have "drop 7 (drop e text) = post" by (simp add: post_def add.commute)
  finally have decomp: "text = pre @ ''[SPEC]'' @ mid @ ''[/SPEC]'' @ post"
    by (simp only: tb te pre_def)
  have lp: "length pre = b" using lb by (simp add: pre_def)
  have lm: "length (pre @ ''[SPEC]'' @ mid) = e" using lb le apart by (simp add: pre_def mid_def)
  have x: "extract_spec text = Some (strip mid)"
    using h by (simp add: extract_spec_found find_first_Some mid_def)
  from strip_trims [of mid] obtain l r where
    "mid = l @ strip mid @ r" "\<forall>c\<in>set l. isspace c" "\<forall>c\<in>set r. isspace c"
    "strip mid \<noteq> [] \<longrightarrow> \<not> isspace (hd (strip mid)) \<and> \<not> isspace (last (strip mid))"
    by blast
  with decomp lp lm x
  show "\<exists>pre mid post l res r.
         text = pre @ ''[SPEC]'' @ mid @ ''[/SPEC]'' @ post \<and>
         length pre = b \<and> length (pre @ ''[SPEC]'' @ mid) = e \<and>
         mid = l @ res @ r \<and> (\<forall>c\<in>set l. isspace c) \<and> (\<forall>c\<in>set r. isspace c) \<and>
         (res \<noteq> [] \<longrightarrow> \<not> isspace (hd res) \<and> \<not> isspace (last res)) \<and>
         extract_spec text = Some res"
    by blast
next
  assume "(\<forall>i. \<not> occurs_at text ''[SPEC]'' i) \<or> (\<forall>i. \<not> occurs_at text ''[/SPEC]'' i)"
  then show "extract_spec text = None"
    by (simp add: extract_spec_missing find_first_None)
qed

text \<open>
  A revision with spaces, a line feed and a no-break space next to the markers, and the
  examples of the claim: markers around \<open>Revised X\<close>, no marker, only the begin marker.
\<close>

theorem extract_spec_between_witness:
  "first_occurrence (''prefix [SPEC]  Revised X '' @ [CHR 0x0A, CHR 0xA0] @ ''[/SPEC] suffix'')
     ''[SPEC]'' 7 \<and>
   first_occurrence (''prefix [SPEC]  Revised X '' @ [CHR 0x0A, CHR 0xA0] @ ''[/SPEC] suffix'')
     ''[/SPEC]'' 27 \<and>
   (\<exists>pre mid post l res r.
      ''prefix [SPEC]  Revised X '' @ [CHR 0x0A, CHR 0xA0] @ ''[/SPEC] suffix'' =
        pre @ ''[SPEC]'' @ mid @ ''[/SPEC]'' @ post \<and>
      length pre = 7 \<and> length (pre @ ''[SPEC]'' @ mid) = 27 \<and>
      mid = l @ res @ r \<and> (\<forall>c\<in>set l. isspace c) \<and> (\<forall>c\<in>set r. isspace c) \<and>
      (res \<noteq> [] \<longrightarrow> \<not> isspace (hd res) \<and> \<not> isspace (last res)) \<and>
      extract_spec (''prefix [SPEC]  Revised X '' @ [CHR 0x0A, CHR 0xA0] @ ''[/SPEC] suffix'')
        = Some res) \<and>
   extract_spec (''prefix [SPEC]  Revised X '' @ [CHR 0x0A, CHR 0xA0] @ ''[/SPEC] suffix'')
     = Some ''Revised X'' \<and>
   extract_spec ''prefix [SPEC]Revised X[/SPEC] suffix'' = Some ''Revised X'' \<and>
   (\<forall>i. \<not> occurs_at ''no markers'' ''[SPEC]'' i) \<and> extract_spec ''no markers'' = None \<and>
   (\<forall>i. \<not> occurs_at ''only [SPEC] here'' ''[/SPEC]'' i) \<and>
   extract_spec ''only [SPEC] here'' = None"
proof -
  let ?t = "''prefix [SPEC]  Revised X '' @ [CHR 0x0A, CHR 0xA0] @ ''[/SPEC] suffix''"
  have b: "first_occurrence ?t ''[SPEC]'' 7"
    unfolding find_first_Some [symmetric] by simp
  have e: "first_occurrence ?t ''[/SPEC]'' 27"
    unfolding find_first_Some [symmetric] by simp
  from extract_spec_between [of ?t 7 27] b e
  have x: "\<exists>pre mid post l res r.
      ?t = pre @ ''[SPEC]'' @ mid @ ''[/SPEC]'' @ post \<and>
      length pre = 7 \<and> length (pre @ ''[SPEC]'' @ mid) = 27 \<and>
      mid = l @ res @ r \<and> (\<forall>c\<in>set l. isspace c) \<and> (\<forall>c\<in>set r. isspace c) \<and>
      (res \<noteq> [] \<longrightarrow> \<not> isspace (hd res) \<and> \<not> isspace (last res)) \<and>
      extract_spec ?t = Some res"
    by simp
  have v: "extract_spec ?t = Some ''Revised X''"
    using b e
    by (simp add: extract_spec_found find_first_Some [symmetric] strip_def isspace_def
        whitespace_def)
  have v': "extract_spec ''prefix [SPEC]Revised X[/SPEC] suffix'' = Some ''Revised X''"
    by (simp add: extract_spec_def contains_def find_str_def slice_def strip_def isspace_def
        whitespace_def)
  have n1: "\<forall>i. \<not> occurs_at ''no markers'' ''[SPEC]'' i"
    unfolding find_first_None [symmetric] by simp
  have n2: "\<forall>i. \<not> occurs_at ''only [SPEC] here'' ''[/SPEC]'' i"
    unfolding find_first_None [symmetric] by simp
  from extract_spec_between [of "''no markers''"] n1
  have r1: "extract_spec ''no markers'' = None" by blast
  from extract_spec_between [of "''only [SPEC] here''"] n2
  have r2: "extract_spec ''only [SPEC] here'' = None" by blast
  from b e x v v' n1 r1 n2 r2 show ?thesis by blast
qed

text \<open>
  Claim C8, as the code has it. When the first \<open>[/SPEC]\<close> stands before the first
  \<open>[SPEC]\<close>, both membership tests pass, the slice \<open>response[start:end]\<close> has
  \<open>start > end\<close> and is empty, and \<open>extract_spec\<close> returns the empty string, which is
  not \<open>None\<close>.
\<close>

theorem extract_spec_end_first:
  "first_occurrence text ''[/SPEC]'' e \<Longrightarrow> first_occurrence text ''[SPEC]'' b \<Longrightarrow> e < b
   \<Longrightarrow> extract_spec text = Some []"
  by (simp add: extract_spec_found find_first_Some [symmetric] strip_Nil)

text \<open>
  The claim as stated (the result is \<open>None\<close>) fails on \<open>[/SPEC] x [SPEC]\<close>.
\<close>

theorem extract_spec_end_first_counterexample:
  "first_occurrence ''[/SPEC] x [SPEC]'' ''[/SPEC]'' 0 \<and>
   first_occurrence ''[/SPEC] x [SPEC]'' ''[SPEC]'' 10 \<and>
   extract_spec ''[/SPEC] x [SPEC]'' \<noteq> None"
proof -
  have "first_occurrence ''[/SPEC] x [SPEC]'' ''[/SPEC]'' 0"
    unfolding find_first_Some [symmetric] by simp
  moreover have "first_occurrence ''[/SPEC] x [SPEC]'' ''[SPEC]'' 10"
    unfolding find_first_Some [symmetric] by simp
  moreover have "extract_spec ''[/SPEC] x [SPEC]'' \<noteq> None"
    by (simp add: extract_spec_def contains_def find_str_def slice_def strip_def)
  ultimately show ?thesis by blast
qed

theorem extract_spec_end_first_witness:
  "first_occurrence ''[/SPEC] x [SPEC]'' ''[/SPEC]'' 0 \<and>
   first_occurrence ''[/SPEC] x [SPEC]'' ''[SPEC]'' 10 \<and> (0::nat) < 10 \<and>
   extract_spec ''[/SPEC] x [SPEC]'' = Some []"
proof -
  have e: "first_occurrence ''[/SPEC] x [SPEC]'' ''[/SPEC]'' 0"
    unfolding find_first_Some [symmetric] by simp
  have b: "first_occurrence ''[/SPEC] x [SPEC]'' ''[SPEC]'' 10"
    unfolding find_first_Some [symmetric] by simp
  from extract_spec_end_first [OF e b] e b show ?thesis by simp
qed

section \<open>Retries: what \<open>call_single_model\<close> does\<close>

lemma upt_3: "[0..<3] = [0, 1, 2]"
  by (simp add: upt_rec)

lemma call_single_model_unfold:
  "call_single_model m c tr =
     (case try_body m (c 0) tr of
        Inr (r, tr') \<Rightarrow> (r, tr', [Attempt 0])
      | Inl e0 \<Rightarrow>
          (case try_body m (c 1) tr of
             Inr (r, tr') \<Rightarrow> (r, tr', [Attempt 0, Sleep 1, Attempt 1])
           | Inl e1 \<Rightarrow>
               (case try_body m (c 2) tr of
                  Inr (r, tr') \<Rightarrow> (r, tr', [Attempt 0, Sleep 1, Attempt 1, Sleep 2, Attempt 2])
                | Inl e2 \<Rightarrow>
                    (error_response m (Some e2), tr,
                     [Attempt 0, Sleep 1, Attempt 1, Sleep 2, Attempt 2]))))"
  by (simp add: call_single_model_def MAX_RETRIES_def RETRY_BASE_DELAY_def upt_3
      error_response_def split: sum.splits prod.splits)

lemma retry_events_simps:
  "retry_events 0 = [Attempt 0]"
  "retry_events (Suc 0) = [Attempt 0, Sleep 1, Attempt (Suc 0)]"
  "retry_events 2 = [Attempt 0, Sleep 1, Attempt 1, Sleep 2, Attempt 2]"
  by (simp_all add: retry_events_def RETRY_BASE_DELAY_def upt_rec)

lemma try_body_Raised: "try_body m (Raised e) tr = Inl e"
  by simp

lemma try_body_Completed:
  "\<exists>r tr'. try_body m (Completed content usage) tr = Inr (r, tr') \<and> error r = None \<and>
     response r = content \<and> model r = m"
  by (simp add: Let_def split: prod.splits)

lemma success_at:
  assumes k: "k < 3" and f: "\<forall>j<k. \<exists>e. completion j = Raised e"
    and c: "completion k = Completed content usage"
    and t: "try_body m (Completed content usage) tr = Inr (r, tr')"
  shows "call_single_model m completion tr = (r, tr', retry_events k)"
proof -
  from k have "k = 0 \<or> k = 1 \<or> k = 2" by arith
  then show ?thesis
  proof (elim disjE)
    assume k0: "k = 0"
    from c t show ?thesis unfolding k0 call_single_model_unfold
      by (simp add: retry_events_simps del: try_body.simps)
  next
    assume k1: "k = 1"
    from f have "\<exists>e. completion 0 = Raised e" unfolding k1 by simp
    then obtain e0 where e0: "completion 0 = Raised e0" by blast
    from c t e0 show ?thesis unfolding k1 call_single_model_unfold
      by (simp add: retry_events_simps del: try_body.simps(2))
  next
    assume k2: "k = 2"
    from f have "\<exists>e. completion 0 = Raised e" and "\<exists>e. completion 1 = Raised e"
      unfolding k2 by simp_all
    then obtain e0 e1 where e: "completion 0 = Raised e0" "completion 1 = Raised e1" by blast
    from c t e show ?thesis unfolding k2 call_single_model_unfold
      by (simp add: retry_events_simps del: try_body.simps(2))
  qed
qed

lemma all_failed:
  assumes f: "\<forall>j<3. \<exists>e. completion j = Raised e" and l: "completion 2 = Raised e"
  shows "call_single_model m completion tr = (error_response m (Some e), tr, retry_events 2)"
proof -
  from f have "\<exists>e. completion 0 = Raised e" and "\<exists>e. completion 1 = Raised e" by simp_all
  then obtain e0 e1 where e: "completion 0 = Raised e0" "completion 1 = Raised e1" by blast
  from e l show ?thesis unfolding call_single_model_unfold
    by (simp add: retry_events_simps)
qed

lemma attempts_bounded:
  "length (filter is_attempt (snd (snd (call_single_model m completion tr)))) \<le> 3"
  unfolding call_single_model_unfold by (simp split: sum.splits prod.splits del: try_body.simps)

text \<open>
  Claim C4. An invocation makes at most \<open>MAX_RETRIES = 3\<close> attempts. If attempt \<open>k\<close> is
  the first that does not fail, the invocation made the attempts \<open>0..k\<close> with the sleep
  \<open>RETRY_BASE_DELAY * 2 ^ a\<close> after each failed attempt \<open>a\<close>, and returns the response
  of the successful attempt, whose error is \<open>None\<close>. If all three attempts fail, it slept
  \<open>RETRY_BASE_DELAY\<close> and \<open>2 * RETRY_BASE_DELAY\<close> and returns the error response built
  from the message of the last failure. Every exception of an attempt is a value here
  and the result is always a response.
\<close>

theorem call_single_model_retries:
  "(k < MAX_RETRIES \<and> (\<forall>j<k. \<exists>e. completion j = Raised e) \<and>
      completion k = Completed content usage \<longrightarrow>
      snd (snd (call_single_model m completion tr)) = retry_events k \<and>
      error (fst (call_single_model m completion tr)) = None \<and>
      try_body m (Completed content usage) tr =
        Inr (fst (call_single_model m completion tr),
             fst (snd (call_single_model m completion tr)))) \<and>
   ((\<forall>j<MAX_RETRIES. \<exists>e. completion j = Raised e) \<and> completion (MAX_RETRIES - 1) = Raised e \<longrightarrow>
      snd (snd (call_single_model m completion tr)) = retry_events (MAX_RETRIES - 1) \<and>
      fst (call_single_model m completion tr) = error_response m (Some e)) \<and>
   length (filter is_attempt (snd (snd (call_single_model m completion tr)))) \<le> MAX_RETRIES \<and>
   retry_events (MAX_RETRIES - 1) =
     [Attempt 0, Sleep RETRY_BASE_DELAY, Attempt 1, Sleep (2 * RETRY_BASE_DELAY), Attempt 2]"
proof (intro conjI impI)
  assume h: "k < MAX_RETRIES \<and> (\<forall>j<k. \<exists>e. completion j = Raised e) \<and>
      completion k = Completed content usage"
  then have k: "k < 3" by (simp add: MAX_RETRIES_def)
  obtain r tr' where t: "try_body m (Completed content usage) tr = Inr (r, tr')"
    and e: "error r = None"
    using try_body_Completed [of m content usage tr] by blast
  from h k t have u: "call_single_model m completion tr = (r, tr', retry_events k)"
    by (blast intro: success_at)
  from u show "snd (snd (call_single_model m completion tr)) = retry_events k" by simp
  from u e show "error (fst (call_single_model m completion tr)) = None" by simp
  from u t show "try_body m (Completed content usage) tr =
        Inr (fst (call_single_model m completion tr),
             fst (snd (call_single_model m completion tr)))" by simp
next
  assume h: "(\<forall>j<MAX_RETRIES. \<exists>e. completion j = Raised e) \<and> completion (MAX_RETRIES - 1) = Raised e"
  then have u: "call_single_model m completion tr = (error_response m (Some e), tr, retry_events 2)"
    by (simp add: MAX_RETRIES_def all_failed)
  from u show "snd (snd (call_single_model m completion tr)) = retry_events (MAX_RETRIES - 1)"
    by (simp add: MAX_RETRIES_def)
  from u show "fst (call_single_model m completion tr) = error_response m (Some e)" by simp
next
  show "length (filter is_attempt (snd (snd (call_single_model m completion tr)))) \<le> MAX_RETRIES"
    by (simp add: MAX_RETRIES_def attempts_bounded)
next
  show "retry_events (MAX_RETRIES - 1) =
     [Attempt 0, Sleep RETRY_BASE_DELAY, Attempt 1, Sleep (2 * RETRY_BASE_DELAY), Attempt 2]"
    by (simp add: MAX_RETRIES_def retry_events_simps RETRY_BASE_DELAY_def)
qed

text \<open>Two failures and a success; three failures.\<close>

theorem call_single_model_retries_witness:
  "snd (snd (call_single_model ''gpt-5.2''
       (\<lambda>n. if n < 2 then Raised ''timeout'' else Completed ''[AGREE]'' None) cost_tracker))
     = [Attempt 0, Sleep 1, Attempt 1, Sleep 2, Attempt 2] \<and>
   error (fst (call_single_model ''gpt-5.2''
       (\<lambda>n. if n < 2 then Raised ''timeout'' else Completed ''[AGREE]'' None) cost_tracker))
     = None \<and>
   fst (call_single_model ''gpt-5.2'' (\<lambda>n. Raised ''timeout'') cost_tracker)
     = error_response ''gpt-5.2'' (Some ''timeout'')"
  using call_single_model_retries
     [where k = 2 and m = "''gpt-5.2''" and tr = cost_tracker and content = "''[AGREE]''"
        and usage = None
        and completion = "\<lambda>n. if n < 2 then Raised ''timeout'' else Completed ''[AGREE]'' None"]
    call_single_model_retries
     [where m = "''gpt-5.2''" and tr = cost_tracker and e = "''timeout''"
        and completion = "\<lambda>n. Raised ''timeout''"]
  by (simp add: MAX_RETRIES_def retry_events_simps del: try_body.simps)

lemma try_body_no_error: "try_body m c tr = Inr (r, tr') \<Longrightarrow> error r = None"
  by (cases c) (auto simp: Let_def split: prod.splits)

lemma error_set_cases:
  assumes "error (fst (call_single_model m completion tr)) \<noteq> None"
  shows "\<exists>e. call_single_model m completion tr = (error_response m (Some e), tr, retry_events 2)"
  using assms unfolding call_single_model_unfold
  by (auto simp: retry_events_simps dest: try_body_no_error split: sum.splits prod.splits
      simp del: try_body.simps)

text \<open>
  Claim C5. A response of \<open>call_single_model\<close> whose error is set has \<open>agreed = False\<close>,
  no extracted strategy, cost and token counts 0, and the invocation left the cost
  tracker as it was; an invocation whose attempts all fail returns such a response.
\<close>

theorem error_response_invariant:
  "(error (fst (call_single_model m completion tr)) \<noteq> None \<longrightarrow>
      agreed (fst (call_single_model m completion tr)) = False \<and>
      spec (fst (call_single_model m completion tr)) = None \<and>
      cost (fst (call_single_model m completion tr)) = 0 \<and>
      input_tokens (fst (call_single_model m completion tr)) = 0 \<and>
      output_tokens (fst (call_single_model m completion tr)) = 0 \<and>
      fst (snd (call_single_model m completion tr)) = tr) \<and>
   ((\<forall>j<MAX_RETRIES. \<exists>e. completion j = Raised e) \<longrightarrow>
      error (fst (call_single_model m completion tr)) \<noteq> None)"
proof (intro conjI impI)
  assume "error (fst (call_single_model m completion tr)) \<noteq> None"
  then obtain e where
    u: "call_single_model m completion tr = (error_response m (Some e), tr, retry_events 2)"
    using error_set_cases by blast
  from u show "agreed (fst (call_single_model m completion tr)) = False"
    and "spec (fst (call_single_model m completion tr)) = None"
    and "cost (fst (call_single_model m completion tr)) = 0"
    and "input_tokens (fst (call_single_model m completion tr)) = 0"
    and "output_tokens (fst (call_single_model m completion tr)) = 0"
    and "fst (snd (call_single_model m completion tr)) = tr"
    by (simp_all add: error_response_def)
next
  assume f: "\<forall>j<MAX_RETRIES. \<exists>e. completion j = Raised e"
  then have "\<exists>e. completion 2 = Raised e" by (simp add: MAX_RETRIES_def)
  then obtain e where "completion 2 = Raised e" by blast
  with f have "call_single_model m completion tr = (error_response m (Some e), tr, retry_events 2)"
    by (simp add: MAX_RETRIES_def all_failed)
  then show "error (fst (call_single_model m completion tr)) \<noteq> None"
    by (simp add: error_response_def)
qed

text \<open>Three rate-limit failures against the fresh tracker.\<close>

theorem error_response_invariant_witness:
  "error (fst (call_single_model ''o1'' (\<lambda>n. Raised ''rate limit'') cost_tracker)) \<noteq> None \<and>
   agreed (fst (call_single_model ''o1'' (\<lambda>n. Raised ''rate limit'') cost_tracker)) = False \<and>
   spec (fst (call_single_model ''o1'' (\<lambda>n. Raised ''rate limit'') cost_tracker)) = None \<and>
   cost (fst (call_single_model ''o1'' (\<lambda>n. Raised ''rate limit'') cost_tracker)) = 0 \<and>
   fst (snd (call_single_model ''o1'' (\<lambda>n. Raised ''rate limit'') cost_tracker)) = cost_tracker"
  using error_response_invariant
     [where m = "''o1''" and tr = cost_tracker and completion = "\<lambda>n. Raised ''rate limit''"]
  by simp

section \<open>Cost accounting: what \<open>CostTracker.add\<close> does\<close>

lemma ModelTotals_updates:
  "(t::ModelTotals)\<lparr>sub_input_tokens := a, sub_output_tokens := b, sub_cost := c\<rparr> =
     \<lparr>sub_input_tokens = a, sub_output_tokens = b, sub_cost = c\<rparr>"
  by (cases t) simp

lemma add_result:
  "add tr m inp out =
     (incremental_cost (price_of m) inp out,
      tr\<lparr>total_input_tokens := total_input_tokens tr + inp,
         total_output_tokens := total_output_tokens tr + out,
         total_cost := total_cost tr + incremental_cost (price_of m) inp out,
         by_model := (by_model tr)
           (m \<mapsto> \<lparr>sub_input_tokens = sub_input_tokens (subtotal tr m) + inp,
                   sub_output_tokens = sub_output_tokens (subtotal tr m) + out,
                   sub_cost = sub_cost (subtotal tr m)
                              + incremental_cost (price_of m) inp out\<rparr>)\<rparr>)"
  by (auto simp: add_def Let_def price_of_def subtotal_def incremental_cost_def
      ModelTotals_updates split: option.splits)

text \<open>
  Claim C6. \<open>add\<close> prices the call with the entry of \<open>MODEL_COSTS\<close> for the model, or
  with \<open>DEFAULT_COST\<close> when there is none; it returns
  \<open>inp / 1e6 * input_price + out / 1e6 * output_price\<close>; the three totals and the model's
  entry of \<open>by_model\<close> grow by the call's tokens and cost, and no other entry changes; two
  calls for one model add up in its entry; one million input tokens of \<open>gpt-5.2\<close> cost
  1.75.
\<close>

theorem add_accounts:
  "fst (add tr m inp out) = incremental_cost (price_of m) inp out \<and>
   total_input_tokens (snd (add tr m inp out)) = total_input_tokens tr + inp \<and>
   total_output_tokens (snd (add tr m inp out)) = total_output_tokens tr + out \<and>
   total_cost (snd (add tr m inp out)) = total_cost tr + incremental_cost (price_of m) inp out \<and>
   sub_input_tokens (subtotal (snd (add tr m inp out)) m)
     = sub_input_tokens (subtotal tr m) + inp \<and>
   sub_output_tokens (subtotal (snd (add tr m inp out)) m)
     = sub_output_tokens (subtotal tr m) + out \<and>
   sub_cost (subtotal (snd (add tr m inp out)) m)
     = sub_cost (subtotal tr m) + incremental_cost (price_of m) inp out \<and>
   by_model (snd (add tr m inp out))
     = (by_model tr)(m \<mapsto> subtotal (snd (add tr m inp out)) m) \<and>
   sub_cost (subtotal (snd (add (snd (add tr m inp out)) m inp' out')) m)
     = sub_cost (subtotal tr m) + incremental_cost (price_of m) inp out
       + incremental_cost (price_of m) inp' out' \<and>
   (MODEL_COSTS m = None \<longrightarrow> price_of m = DEFAULT_COST) \<and>
   (MODEL_COSTS m = Some p \<longrightarrow> price_of m = p) \<and>
   MODEL_COSTS ''gpt-5.2'' = Some \<lparr>input_price = 175 / 100, output_price = 14\<rparr> \<and>
   fst (add tr ''gpt-5.2'' 1000000 0) = 175 / 100"
  by (simp add: add_result subtotal_def price_of_def incremental_cost_def MODEL_COSTS_def)

text \<open>An unknown model at the default price, and two calls for \<open>o1\<close>.\<close>

theorem add_accounts_witness:
  "MODEL_COSTS ''criticA'' = None \<and> fst (add cost_tracker ''criticA'' 1000000 0) = 5 \<and>
   MODEL_COSTS ''o1'' = Some \<lparr>input_price = 15, output_price = 60\<rparr> \<and>
   fst (add cost_tracker ''o1'' 0 1000000) = 60 \<and>
   sub_cost (subtotal (snd (add (snd (add cost_tracker ''o1'' 1000000 0)) ''o1'' 0 1000000)) ''o1'')
     = 75"
  using add_accounts [where m = "''criticA''" and tr = cost_tracker and inp = 1000000 and out = 0]
    add_accounts [where m = "''o1''" and tr = cost_tracker and inp = 0 and out = 1000000
      and p = "\<lparr>input_price = 15, output_price = 60\<rparr>"]
    add_accounts [where m = "''o1''" and tr = cost_tracker and inp = 1000000 and out = 0
      and inp' = 0 and out' = 1000000 and p = "\<lparr>input_price = 15, output_price = 60\<rparr>"]
  by (simp add: MODEL_COSTS_def DEFAULT_COST_def incremental_cost_def subtotal_def
      cost_tracker_def)

section \<open>Rounds: what \<open>call_models_parallel\<close> returns\<close>

lemma try_body_tracker_free:
  "(case try_body m c tr of Inl e \<Rightarrow> Inl e | Inr (r, t) \<Rightarrow> Inr r) =
   (case try_body m c tr0 of Inl e \<Rightarrow> Inl e | Inr (r, t) \<Rightarrow> Inr r)"
  by (cases c) (simp_all add: add_result Let_def)

lemma response_tracker_free:
  "fst (call_single_model m c tr) = fst (call_single_model m c tr0)"
  using try_body_tracker_free [of m "c 0" tr tr0] try_body_tracker_free [of m "c 1" tr tr0]
    try_body_tracker_free [of m "c 2" tr tr0]
  unfolding call_single_model_unfold
  by (auto split: sum.splits prod.splits simp del: try_body.simps)

lemma fst_call_single_model: "fst (call_single_model m c tr) = response_of m c"
  unfolding response_of_def by (rule response_tracker_free)

lemma fst_collect: "fst (collect fs tr) = map (\<lambda>(m, c). response_of m c) fs"
proof (induction fs arbitrary: tr)
  case Nil
  show ?case by simp
next
  case (Cons f fs)
  obtain m c where f: "f = (m, c)" by (cases f)
  obtain r tr' evs where u: "call_single_model m c tr = (r, tr', evs)"
    by (cases "call_single_model m c tr")
  from u have "r = response_of m c" using fst_call_single_model [of m c tr] by simp
  with Cons.IH [of tr'] f u show ?case
    by (cases "collect fs tr'") simp
qed

lemma as_completed_map: "as_completed ks (map f xs) = map f (as_completed ks xs)"
proof (induction ks arbitrary: xs)
  case Nil
  show ?case by simp
next
  case (Cons k ks)
  show ?case
  proof (cases "xs = []")
    case True
    then show ?thesis by simp
  next
    case False
    then have "k mod length xs < length xs" by simp
    with False Cons.IH [of "take (k mod length xs) xs @ drop (Suc (k mod length xs)) xs"]
    show ?thesis by (simp add: Let_def take_map drop_map)
  qed
qed

lemma mset_as_completed: "mset (as_completed ks xs) = mset xs"
proof (induction ks arbitrary: xs)
  case Nil
  show ?case by simp
next
  case (Cons k ks)
  show ?case
  proof (cases "xs = []")
    case True
    then show ?thesis by simp
  next
    case False
    define i where "i = k mod length xs"
    from False have i: "i < length xs" by (simp add: i_def)
    have "mset xs = mset (take i xs @ xs ! i # drop (Suc i) xs)"
      using id_take_nth_drop [OF i] by simp
    with False Cons.IH [of "take i xs @ drop (Suc i) xs"] show ?thesis
      by (simp add: Let_def i_def)
  qed
qed

lemma length_as_completed: "length (as_completed ks xs) = length xs"
  using mset_as_completed [of ks xs] by (metis size_mset)

lemma zip_map_upt: "zip xs (map f [0..<length xs]) = map (\<lambda>i. (xs ! i, f i)) [0..<length xs]"
  by (rule nth_equalityI) simp_all

lemma call_models_parallel_results:
  "models \<noteq> [] \<Longrightarrow>
   \<exists>tr'. call_models_parallel models completions schedule tr =
     Inr (as_completed schedule
            (map (\<lambda>i. response_of (models ! i) (completions i)) [0..<length models]), tr')"
proof -
  assume ne: "models \<noteq> []"
  let ?fs = "zip models (map completions [0..<length models])"
  have "fst (collect (as_completed schedule ?fs) tr) =
        map (\<lambda>(m, c). response_of m c) (as_completed schedule ?fs)"
    by (rule fst_collect)
  also have "\<dots> = as_completed schedule (map (\<lambda>(m, c). response_of m c) ?fs)"
    by (simp add: as_completed_map)
  also have "map (\<lambda>(m, c). response_of m c) ?fs =
             map (\<lambda>i. response_of (models ! i) (completions i)) [0..<length models]"
    by (simp add: zip_map_upt)
  finally show ?thesis using ne
    by (simp add: call_models_parallel_def Let_def) (metis prod.collapse)
qed

lemma try_body_model: "try_body m c tr = Inr (r, t) \<Longrightarrow> model r = m"
  by (cases c) (auto simp: Let_def split: prod.splits)

lemma model_response_of: "model (response_of m c) = m"
  unfolding response_of_def call_single_model_unfold
  by (auto simp: error_response_def dest: try_body_model split: sum.splits prod.splits
      simp del: try_body.simps)

lemma call_models_parallel_empty: "call_models_parallel [] completions schedule tr = Inl ValueError"
  by (simp add: call_models_parallel_def)

lemma run_round_result:
  assumes r: "run_round ss sp args models completions schedule w = Inr (out, w')"
  shows "models \<noteq> [] \<and>
    out_results out = round_results models completions schedule \<and>
    out_all_agreed out = all_agreed (out_results out) \<and>
    out_round out = args_round args \<and>
    out_latest_spec out = latest_spec sp (successful (out_results out)) \<and>
    sessions w' = (case ss of None \<Rightarrow> sessions w
                   | Some st \<Rightarrow> (sessions w)(session_id st \<mapsto> persisted st out (clock w (ticks w))))"
proof (cases "models = []")
  case True
  with r show ?thesis by (simp add: run_round_def call_models_parallel_empty)
next
  case False
  then obtain tr' where c: "call_models_parallel models completions schedule (tracker w) =
      Inr (round_results models completions schedule, tr')"
    using call_models_parallel_results [of models completions schedule "tracker w"]
    unfolding round_results_def by blast
  from r False show ?thesis
    unfolding run_round_def c
    by (cases ss)
       (auto simp: Let_def save_def now_def save_checkpoint_def persisted_def summary_def
          split: prod.splits sum.splits if_splits)
qed

lemma run_round_defined_session:
  assumes "models \<noteq> []" and "session_id st \<noteq> []" and "session_writable w (session_id st)"
    and "checkpoint_writable w (session_id st @ ''-'', args_round args)"
  shows "\<exists>out w'. run_round (Some st) sp args models completions schedule w = Inr (out, w')"
proof -
  from assms(1) obtain tr' where c: "call_models_parallel models completions schedule (tracker w) =
      Inr (round_results models completions schedule, tr')"
    using call_models_parallel_results [of models completions schedule "tracker w"]
    unfolding round_results_def by blast
  from assms(2-4) show ?thesis unfolding run_round_def c
    by (simp add: Let_def truthy_def save_checkpoint_def save_def now_def)
qed

lemma run_round_defined_plain:
  assumes "models \<noteq> []" and "args_session args = Some sid" and "sid \<noteq> []"
    and "checkpoint_writable w (sid @ ''-'', args_round args)"
  shows "\<exists>out w'. run_round None sp args models completions schedule w = Inr (out, w')"
proof -
  from assms(1) obtain tr' where c: "call_models_parallel models completions schedule (tracker w) =
      Inr (round_results models completions schedule, tr')"
    using call_models_parallel_results [of models completions schedule "tracker w"]
    unfolding round_results_def by blast
  from assms(2-4) show ?thesis unfolding run_round_def c
    by (simp add: Let_def truthy_def save_checkpoint_def)
qed

lemma run_round_unwritable:
  assumes "models \<noteq> []" and "session_id st \<noteq> []"
    and "\<not> session_writable w (session_id st) \<or>
         \<not> checkpoint_writable w (session_id st @ ''-'', args_round args)"
  shows "run_round (Some st) sp args models completions schedule w = Inl OSError"
proof -
  from assms(1) obtain tr' where c: "call_models_parallel models completions schedule (tracker w) =
      Inr (round_results models completions schedule, tr')"
    using call_models_parallel_results [of models completions schedule "tracker w"]
    unfolding round_results_def by blast
  from assms(2-3) show ?thesis unfolding run_round_def c
    by (auto simp: Let_def truthy_def save_checkpoint_def save_def now_def)
qed

lemma example_writable:
  "session_writable initial_world ''s1''" "checkpoint_writable initial_world (''s1-'', 1)"
  "args_session example_args = Some ''s1''" "args_round example_args = 1"
  "session_id example_session = ''s1''"
  by (simp_all add: initial_world_def example_args_def example_session_def)

section \<open>Consensus and selection on a list of responses\<close>

lemma set_as_completed: "set (as_completed ks xs) = set xs"
  using mset_as_completed [of ks xs] by (metis set_mset_mset)

lemma response_of_error_spec: "error (response_of m c) \<noteq> None \<Longrightarrow> spec (response_of m c) = None"
  unfolding response_of_def
  using error_set_cases [of m c cost_tracker] by (auto simp: error_response_def)

lemma round_results_error_spec:
  "\<forall>r\<in>set (round_results models completions schedule). truthy (error r) \<longrightarrow> spec r = None"
  unfolding round_results_def set_as_completed
  by (auto simp: truthy_def response_of_error_spec split: option.splits)

lemma latest_spec_successful:
  "\<forall>r\<in>set rs. truthy (error r) \<longrightarrow> spec r = None
   \<Longrightarrow> latest_spec cur (successful rs) = latest_spec cur rs"
  by (induction rs) (simp_all add: successful_def split: option.splits)

lemma latest_spec_none: "\<forall>r\<in>set rs. \<not> truthy (spec r) \<Longrightarrow> latest_spec cur rs = cur"
  by (induction rs) (simp_all add: truthy_def split: option.splits)

lemma latest_spec_first:
  "\<forall>p\<in>set pre. \<not> truthy (spec p) \<Longrightarrow> spec r = Some s \<Longrightarrow> s \<noteq> []
   \<Longrightarrow> latest_spec cur (pre @ r # post) = s"
  by (induction pre) (simp_all add: truthy_def split: option.splits)

lemma latest_spec_nonempty: "cur \<noteq> [] \<Longrightarrow> latest_spec cur rs \<noteq> []"
  by (induction rs) (auto split: option.splits)

lemma latest_spec_skips_empty:
  "latest_spec cur (map (\<lambda>r. if spec r = Some [] then r\<lparr>spec := None\<rparr> else r) rs) =
   latest_spec cur rs"
  by (induction rs) (auto split: option.splits)

lemma latest_spec_changed:
  "latest_spec cur rs \<noteq> cur \<Longrightarrow>
   (\<exists>r\<in>set rs. spec r = Some (latest_spec cur rs)) \<and> latest_spec cur rs \<noteq> []"
  by (induction rs) (auto split: option.splits if_splits)

lemma all_agreed_iff:
  "all_agreed rs \<longleftrightarrow>
     (\<exists>r\<in>set rs. \<not> truthy (error r)) \<and> (\<forall>r\<in>set rs. \<not> truthy (error r) \<longrightarrow> agreed r)"
  by (auto simp: all_agreed_def successful_def list_all_iff filter_empty_conv)

lemma truthy_error: "e \<noteq> Some [] \<Longrightarrow> truthy e \<longleftrightarrow> e \<noteq> None"
  by (cases e) (simp_all add: truthy_def)

lemma all_agreed_iff_error_free:
  assumes "\<forall>r\<in>set rs. error r \<noteq> Some []"
  shows "all_agreed rs \<longleftrightarrow>
           (\<exists>r\<in>set rs. error r = None) \<and> (\<forall>r\<in>set rs. error r = None \<longrightarrow> agreed r)"
proof -
  from assms have "\<forall>r\<in>set rs. truthy (error r) \<longleftrightarrow> error r \<noteq> None"
    by (simp add: truthy_error)
  then show ?thesis unfolding all_agreed_iff by auto
qed

lemma all_agreed_never:
  "\<not> all_agreed []"
  "\<forall>r\<in>set rs. error r \<noteq> None \<and> \<not> agreed r \<Longrightarrow> \<not> all_agreed rs"
  unfolding all_agreed_iff by auto

lemma round_results_declared:
  "round_results models completions [] =
     map (\<lambda>i. response_of (models ! i) (completions i)) [0..<length models]"
  by (simp add: round_results_def)

lemma length_round_results: "length (round_results models completions schedule) = length models"
  by (simp add: round_results_def length_as_completed)

lemma mset_round_results:
  "mset (round_results models completions schedule) =
   mset (map (\<lambda>i. response_of (models ! i) (completions i)) [0..<length models])"
  by (simp add: round_results_def mset_as_completed)

lemma models_round_results:
  "mset (map model (round_results models completions schedule)) = mset models"
proof -
  have "map model (map (\<lambda>i. response_of (models ! i) (completions i)) [0..<length models]) = models"
    by (rule nth_equalityI) (simp_all add: model_response_of)
  then have "mset models =
      image_mset model (mset (map (\<lambda>i. response_of (models ! i) (completions i)) [0..<length models]))"
    by (metis mset_map)
  then show ?thesis by (simp add: mset_round_results)
qed

section \<open>Rounds: order of the responses, consensus, next strategy\<close>

lemma response_of_Completed:
  "c 0 = Completed content usage \<Longrightarrow>
   response_of m c =
     \<lparr>model = m, response = content, agreed = contains ''[AGREE]'' content,
      spec = extract_spec content, error = None,
      input_tokens = (case usage of Some (p, q) \<Rightarrow> p | None \<Rightarrow> 0),
      output_tokens = (case usage of Some (p, q) \<Rightarrow> q | None \<Rightarrow> 0),
      cost = incremental_cost (price_of m)
               (case usage of Some (p, q) \<Rightarrow> p | None \<Rightarrow> 0)
               (case usage of Some (p, q) \<Rightarrow> q | None \<Rightarrow> 0)\<rparr>"
  unfolding response_of_def call_single_model_unfold
  by (simp add: add_result Let_def)

lemma response_of_Raised:
  "c 0 = Raised e0 \<Longrightarrow> c 1 = Raised e1 \<Longrightarrow> c 2 = Raised e2 \<Longrightarrow>
   response_of m c = error_response m (Some e2)"
  unfolding response_of_def call_single_model_unfold by simp

lemma as_completed_swap: "as_completed [1] [a, b] = [b, a]"
  by (simp add: Let_def)

lemma upt_2: "[0..<2] = [0, 1]"
  by (simp add: upt_rec)

lemma run_round_persisted:
  assumes r: "run_round (Some st) sp args models completions schedule w = Inr (out, w')"
  shows "\<exists>st'. sessions w' (session_id st) = Some st' \<and>
           entry_models (last (history st')) = map summary (out_results out)"
  using run_round_result [OF r] by (simp add: persisted_def)

text \<open>
  Claim C3, as the code has it. For a non-empty roster of size N a round returns exactly N
  responses, the responses of the N roster entries, in the order in which the invocations
  complete: a permutation of the roster order, and the roster order itself when they
  complete in that order. The list recorded in the session's history has the order of the
  returned list.
\<close>

theorem round_returns_roster_permutation:
  "(models \<noteq> [] \<longrightarrow>
      (\<exists>tr'. call_models_parallel models completions schedule tr =
                Inr (round_results models completions schedule, tr')) \<and>
      length (round_results models completions schedule) = length models \<and>
      mset (round_results models completions schedule) =
        mset (map (\<lambda>i. response_of (models ! i) (completions i)) [0..<length models]) \<and>
      mset (map model (round_results models completions schedule)) = mset models \<and>
      round_results models completions [] =
        map (\<lambda>i. response_of (models ! i) (completions i)) [0..<length models]) \<and>
   (run_round (Some st) sp args models completions schedule w = Inr (out, w') \<longrightarrow>
      out_results out = round_results models completions schedule \<and>
      (\<exists>st'. sessions w' (session_id st) = Some st' \<and>
         entry_models (last (history st')) = map summary (out_results out)))"
proof (intro conjI impI)
  assume "models \<noteq> []"
  then show "\<exists>tr'. call_models_parallel models completions schedule tr =
                Inr (round_results models completions schedule, tr')"
    unfolding round_results_def by (rule call_models_parallel_results)
next
  show "length (round_results models completions schedule) = length models"
    by (rule length_round_results)
next
  show "mset (round_results models completions schedule) =
        mset (map (\<lambda>i. response_of (models ! i) (completions i)) [0..<length models])"
    by (rule mset_round_results)
next
  show "mset (map model (round_results models completions schedule)) = mset models"
    by (rule models_round_results)
next
  show "round_results models completions [] =
        map (\<lambda>i. response_of (models ! i) (completions i)) [0..<length models]"
    by (rule round_results_declared)
next
  assume r: "run_round (Some st) sp args models completions schedule w = Inr (out, w')"
  from run_round_result [OF r]
  show "out_results out = round_results models completions schedule" by simp
  from r show "\<exists>st'. sessions w' (session_id st) = Some st' \<and>
         entry_models (last (history st')) = map summary (out_results out)"
    by (rule run_round_persisted)
qed

text \<open>
  The claim as stated fails when the second critic of the roster completes first, and for
  the roster of size 0, where \<open>ThreadPoolExecutor\<close> raises \<open>ValueError\<close>.
\<close>

theorem round_order_counterexample:
  "(case call_models_parallel [''A'', ''B''] (\<lambda>i n. Completed ''[AGREE]'' None) [1] cost_tracker of
      Inr (results, tr) \<Rightarrow> map model results
    | Inl e \<Rightarrow> []) = [''B'', ''A''] \<and>
   call_models_parallel [] (\<lambda>i n. Completed ''[AGREE]'' None) [] cost_tracker = Inl ValueError"
proof -
  obtain tr' where "call_models_parallel [''A'', ''B''] (\<lambda>i n. Completed ''[AGREE]'' None) [1]
      cost_tracker = Inr (round_results [''A'', ''B''] (\<lambda>i n. Completed ''[AGREE]'' None) [1], tr')"
    using call_models_parallel_results
      [of "[''A'', ''B'']" "\<lambda>i n. Completed ''[AGREE]'' None" "[1]" cost_tracker]
    unfolding round_results_def by auto
  then show ?thesis
    by (simp add: round_results_def upt_2 as_completed_swap model_response_of
        call_models_parallel_empty)
qed

text \<open>A round over two critics within a stored session.\<close>

theorem round_returns_roster_permutation_witness:
  "(\<exists>tr'. call_models_parallel [''critic1'', ''critic2''] scenario [1] cost_tracker =
            Inr (round_results [''critic1'', ''critic2''] scenario [1], tr')) \<and>
   length (round_results [''critic1'', ''critic2''] scenario [1]) = 2 \<and>
   (\<exists>out w' st'.
      run_round (Some example_session) ''X'' example_args [''critic1'', ''critic2''] scenario [1]
        initial_world = Inr (out, w') \<and>
      sessions w' ''s1'' = Some st' \<and>
      entry_models (last (history st')) = map summary (out_results out))"
proof -
  have "\<exists>out w'. run_round (Some example_session) ''X'' example_args
      [''critic1'', ''critic2''] scenario [1] initial_world = Inr (out, w')"
    by (rule run_round_defined_session) (simp_all add: example_writable)
  then obtain out w' where r: "run_round (Some example_session) ''X'' example_args
      [''critic1'', ''critic2''] scenario [1] initial_world = Inr (out, w')"
    by blast
  note t = round_returns_roster_permutation
    [where models = "[''critic1'', ''critic2'']" and completions = scenario and schedule = "[1]"
       and tr = cost_tracker and st = example_session and sp = "''X''" and args = example_args
       and w = initial_world and out = out and w' = w']
  have ne: "[''critic1'', ''critic2''] \<noteq> []" by simp
  have sid: "session_id example_session = ''s1''" by (simp add: example_session_def)
  from t ne have a: "\<exists>tr'. call_models_parallel [''critic1'', ''critic2''] scenario [1] cost_tracker =
            Inr (round_results [''critic1'', ''critic2''] scenario [1], tr')" by blast
  from t ne have "length (round_results [''critic1'', ''critic2''] scenario [1]) =
      length [''critic1'', ''critic2'']" by blast
  then have b: "length (round_results [''critic1'', ''critic2''] scenario [1]) = 2" by simp
  from t r have "\<exists>st'. sessions w' (session_id example_session) = Some st' \<and>
         entry_models (last (history st')) = map summary (out_results out)" by blast
  then have c: "\<exists>st'. sessions w' ''s1'' = Some st' \<and>
         entry_models (last (history st')) = map summary (out_results out)"
    unfolding sid .
  from a b c r show ?thesis by blast
qed

text \<open>
  Claim C2, as the code has it. The next strategy is chosen by scanning the responses in
  the order in which the round returned them, which is the order of completion: when no
  response carries a non-empty extraction the strategy is unchanged, and otherwise the
  first non-empty extraction in that order is chosen. When the invocations complete in
  the order of the roster, this is the choice in roster order.
\<close>

theorem next_strategy_selection:
  "(run_round ss sp args models completions schedule w = Inr (out, w') \<longrightarrow>
      out_results out = round_results models completions schedule \<and>
      ((\<forall>r\<in>set (out_results out). \<not> truthy (spec r)) \<longrightarrow> out_latest_spec out = sp) \<and>
      (\<forall>pre r post s.
         out_results out = pre @ r # post \<and> (\<forall>p\<in>set pre. \<not> truthy (spec p)) \<and>
         spec r = Some s \<and> s \<noteq> [] \<longrightarrow> out_latest_spec out = s)) \<and>
   (run_round ss sp args models completions [] w = Inr (out, w') \<longrightarrow>
      out_latest_spec out = declared_order_choice sp models completions)"
proof (intro conjI impI allI)
  assume r: "run_round ss sp args models completions schedule w = Inr (out, w')"
  note res = run_round_result [OF r]
  from res show rr: "out_results out = round_results models completions schedule" by simp
  from res round_results_error_spec [of models completions schedule]
  have l: "out_latest_spec out = latest_spec sp (out_results out)"
    by (simp add: latest_spec_successful)
  {
    assume "\<forall>r\<in>set (out_results out). \<not> truthy (spec r)"
    with l show "out_latest_spec out = sp" by (simp add: latest_spec_none)
  }
  {
    fix pre r post s
    assume "out_results out = pre @ r # post \<and> (\<forall>p\<in>set pre. \<not> truthy (spec p)) \<and>
         spec r = Some s \<and> s \<noteq> []"
    with l show "out_latest_spec out = s" by (simp add: latest_spec_first)
  }
next
  assume r: "run_round ss sp args models completions [] w = Inr (out, w')"
  from run_round_result [OF r] show "out_latest_spec out = declared_order_choice sp models completions"
    by (simp add: declared_order_choice_def round_results_declared)
qed

lemma scenario_responses:
  "spec (response_of m (scenario 0)) = None"
  "agreed (response_of m (scenario 0))"
  "error (response_of m (scenario 0)) = None"
  "spec (response_of m (scenario (Suc 0))) = Some ''Revised V2''"
  "\<not> agreed (response_of m (scenario (Suc 0)))"
  "error (response_of m (scenario (Suc 0))) = None"
  by (simp_all add: response_of_Completed [where usage = None] scenario_def extract_spec_def
      contains_def find_str_def slice_def strip_def isspace_def whitespace_def)

text \<open>
  The scenario of the specification: \<open>critic1\<close> agrees without an extraction, \<open>critic2\<close>
  extracts \<open>Revised V2\<close>.
\<close>

theorem next_strategy_selection_witness:
  "\<exists>out w'. run_round None ''V1'' example_args [''critic1'', ''critic2''] scenario [] initial_world
       = Inr (out, w') \<and>
     out_latest_spec out = ''Revised V2'' \<and>
     out_latest_spec out = declared_order_choice ''V1'' [''critic1'', ''critic2''] scenario \<and>
     \<not> out_all_agreed out"
proof -
  have "\<exists>out w'. run_round None ''V1'' example_args [''critic1'', ''critic2''] scenario []
      initial_world = Inr (out, w')"
    by (rule run_round_defined_plain [where sid = "''s1''"]) (simp_all add: example_writable)
  then obtain out w' where r: "run_round None ''V1'' example_args [''critic1'', ''critic2'']
      scenario [] initial_world = Inr (out, w')"
    by blast
  note n = next_strategy_selection
    [where ss = None and sp = "''V1''" and args = example_args
       and models = "[''critic1'', ''critic2'']" and completions = scenario and schedule = "[]"
       and w = initial_world and out = out and w' = w']
  from n r have "out_results out = round_results [''critic1'', ''critic2''] scenario []"
    by blast
  then have res: "out_results out =
      [response_of ''critic1'' (scenario 0)] @ response_of ''critic2'' (scenario (Suc 0)) # []"
    by (simp add: round_results_declared upt_2)
  from n r have d: "out_latest_spec out = declared_order_choice ''V1'' [''critic1'', ''critic2''] scenario"
    by blast
  from n r have sel: "\<And>pre r post s.
         out_results out = pre @ r # post \<and> (\<forall>p\<in>set pre. \<not> truthy (spec p)) \<and>
         spec r = Some s \<and> s \<noteq> [] \<Longrightarrow> out_latest_spec out = s" by blast
  have pre: "\<forall>p\<in>set [response_of ''critic1'' (scenario 0)]. \<not> truthy (spec p)"
    by (simp add: scenario_responses truthy_def)
  have l: "out_latest_spec out = ''Revised V2''"
    by (rule sel [of "[response_of ''critic1'' (scenario 0)]"
          "response_of ''critic2'' (scenario (Suc 0))" "[]"])
       (simp add: res scenario_responses truthy_def)
  from run_round_result [OF r] have "out_all_agreed out = all_agreed (out_results out)" by simp
  then have "\<not> out_all_agreed out"
    unfolding res by (simp add: all_agreed_iff scenario_responses truthy_def)
  with r l d show ?thesis by blast
qed

lemma two_revisions_responses:
  "spec (response_of m (two_revisions 0)) = Some ''VA''"
  "error (response_of m (two_revisions 0)) = None"
  "spec (response_of m (two_revisions (Suc 0))) = Some ''VB''"
  "error (response_of m (two_revisions (Suc 0))) = None"
  by (simp_all add: response_of_Completed [where usage = None] two_revisions_def extract_spec_def
      contains_def find_str_def slice_def strip_def isspace_def whitespace_def)

text \<open>
  The claim as stated fails when two critics offer a revision and the second of the
  roster completes first: the code chooses \<open>VB\<close>, the scan in roster order chooses \<open>VA\<close>.
\<close>

theorem next_strategy_selection_counterexample:
  "(case run_round None ''X'' example_args [''A'', ''B''] two_revisions [1] initial_world of
      Inr (out, w') \<Rightarrow> out_latest_spec out
    | Inl e \<Rightarrow> []) = ''VB'' \<and>
   declared_order_choice ''X'' [''A'', ''B''] two_revisions = ''VA''"
proof -
  have "\<exists>out w'. run_round None ''X'' example_args [''A'', ''B''] two_revisions [1]
      initial_world = Inr (out, w')"
    by (rule run_round_defined_plain [where sid = "''s1''"]) (simp_all add: example_writable)
  then obtain out w' where r: "run_round None ''X'' example_args [''A'', ''B''] two_revisions [1]
      initial_world = Inr (out, w')"
    by blast
  from run_round_result [OF r] have "out_latest_spec out = ''VB''"
    by (simp add: round_results_def upt_2 as_completed_swap successful_def truthy_def
        two_revisions_responses)
  moreover have "declared_order_choice ''X'' [''A'', ''B''] two_revisions = ''VA''"
    by (simp add: declared_order_choice_def upt_2 successful_def truthy_def
        two_revisions_responses)
  ultimately show ?thesis using r by simp
qed

lemma silent_failure_responses:
  "summary (response_of ''A'' (agree_and_silent_failure 0)) = (''A'', True, None)"
  "summary (response_of ''B'' (agree_and_silent_failure (Suc 0))) = (''B'', False, Some [])"
  by (simp_all add: summary_def response_of_Completed [where usage = None]
      response_of_Raised [where ?e0.0 = "[]" and ?e1.0 = "[]" and ?e2.0 = "[]"]
      agree_and_silent_failure_def error_response_def contains_def)

text \<open>
  Claim C1 on the roster \<open>[A, B]\<close> where \<open>A\<close> agrees and every attempt of \<open>B\<close> fails with
  an exception whose message is empty: the response of \<open>B\<close> carries the error \<open>""\<close>, the
  test \<open>not r.error\<close> keeps it among the successful responses, and the round does not
  converge although the only response without an error agreed.
\<close>

theorem empty_error_message_blocks_consensus:
  "(case call_models_parallel [''A'', ''B''] agree_and_silent_failure [] cost_tracker of
      Inr (results, tr) \<Rightarrow> (map summary results, map summary (successful results),
                            all_agreed results)
    | Inl e \<Rightarrow> ([], [], True)) =
   ([(''A'', True, None), (''B'', False, Some [])],
    [(''A'', True, None), (''B'', False, Some [])], False)"
proof -
  obtain tr' where "call_models_parallel [''A'', ''B''] agree_and_silent_failure [] cost_tracker =
      Inr (round_results [''A'', ''B''] agree_and_silent_failure [], tr')"
    using call_models_parallel_results [of "[''A'', ''B'']" agree_and_silent_failure "[]" cost_tracker]
    unfolding round_results_def by auto
  moreover have "map summary (round_results [''A'', ''B''] agree_and_silent_failure []) =
      [(''A'', True, None), (''B'', False, Some [])]"
    by (simp add: round_results_declared upt_2 silent_failure_responses)
  moreover from this have
    "map summary (successful (round_results [''A'', ''B''] agree_and_silent_failure [])) =
      [(''A'', True, None), (''B'', False, Some [])]"
    by (simp add: round_results_declared upt_2 successful_def truthy_def summary_def)
  moreover from this have "\<not> all_agreed (round_results [''A'', ''B''] agree_and_silent_failure [])"
    by (auto simp: all_agreed_def list_all_iff summary_def)
  ultimately show ?thesis by simp
qed

section \<open>Sessions: what the critique action persists\<close>

lemma init_session_create:
  "args_session args = Some sid \<Longrightarrow> sid \<noteq> [] \<Longrightarrow> session_writable w sid \<Longrightarrow>
   init_session None sp args models w =
     Inr (Some (created sid sp args models (clock w (ticks w)) (clock w (Suc (ticks w)))),
          w\<lparr>ticks := Suc (Suc (ticks w)),
            sessions := (sessions w)
              (sid \<mapsto> created sid sp args models (clock w (ticks w)) (clock w (Suc (ticks w))))\<rparr>)"
  by (simp add: init_session_def now_def save_def created_def Let_def)

lemma init_session_unwritable:
  "args_session args = Some sid \<Longrightarrow> sid \<noteq> [] \<Longrightarrow> \<not> session_writable w sid \<Longrightarrow>
   init_session None sp args models w = Inl OSError"
  by (simp add: init_session_def now_def save_def Let_def)

lemma init_session_keeps: "init_session (Some st) sp args models w = Inr (Some st, w)"
  by (simp add: init_session_def)

lemma init_session_nonempty:
  assumes "sessions_nonempty w" and "sp \<noteq> []"
    and "init_session ss sp args models w = Inr (ss', w1)"
  shows "sessions_nonempty w1"
  using assms
  by (auto simp: init_session_def sessions_nonempty_def now_def save_def Let_def
      split: option.splits if_splits)

lemma main_fresh:
  assumes "\<not> truthy (args_resume args)" and "parse_models (args_models args) \<noteq> []"
    and "strip stdin \<noteq> []" and "args_session args = Some sid" and "sid \<noteq> []"
    and "session_writable w sid"
  shows "main args stdin completions schedule w =
     run_round
       (Some (created sid (strip stdin) args (parse_models (args_models args))
                (clock w (ticks w)) (clock w (Suc (ticks w)))))
       (strip stdin) args (parse_models (args_models args)) completions schedule
       (w\<lparr>ticks := Suc (Suc (ticks w)),
          sessions := (sessions w)
            (sid \<mapsto> created sid (strip stdin) args (parse_models (args_models args))
                     (clock w (ticks w)) (clock w (Suc (ticks w))))\<rparr>)"
  using assms
  by (simp add: main_def read_stdin_def Let_def init_session_create)

lemma main_fresh_unwritable:
  assumes "\<not> truthy (args_resume args)" and "parse_models (args_models args) \<noteq> []"
    and "strip stdin \<noteq> []" and "args_session args = Some sid" and "sid \<noteq> []"
    and "\<not> session_writable w sid"
  shows "main args stdin completions schedule w = Inl OSError"
  using assms
  by (simp add: main_def read_stdin_def Let_def init_session_unwritable)

lemma resume_loaded:
  assumes "sessions w rid = Some st0"
  shows "\<exists>args'. args_round args' = session_round st0 \<and>
     resume rid args w = Inr (Some st0, session_spec st0, args', session_models st0)"
proof -
  define a2 where "a2 = args\<lparr>args_round := session_round st0,
                              args_models := join '','' (session_models st0)\<rparr>"
  define a3 where "a3 = (if truthy (focus st0) then a2\<lparr>args_focus := focus st0\<rparr> else a2)"
  define a4 where "a4 = (if truthy (persona st0) then a3\<lparr>args_persona := persona st0\<rparr> else a3)"
  define a5 where "a5 = (if preserve_intent st0
                         then a4\<lparr>args_preserve_intent := preserve_intent st0\<rparr> else a4)"
  have "args_round a5 = session_round st0"
    by (simp add: a5_def a4_def a3_def a2_def)
  moreover from assms
  have "resume rid args w = Inr (Some st0, session_spec st0, a5, session_models st0)"
    by (simp add: resume_def load_def Let_def a5_def a4_def a3_def a2_def)
  ultimately show ?thesis by blast
qed

lemma main_resume:
  assumes rid: "args_resume args = Some rid" "rid \<noteq> []" and st0: "sessions w rid = Some st0"
    and pm: "parse_models (args_models args) \<noteq> []"
  shows "\<exists>args'. args_round args' = session_round st0 \<and>
     main args stdin completions schedule w =
       run_round (Some st0) (session_spec st0) args' (session_models st0) completions schedule w"
proof -
  from resume_loaded [OF st0, of args] obtain args' where
    a: "args_round args' = session_round st0"
    and r: "resume rid args w = Inr (Some st0, session_spec st0, args', session_models st0)"
    by blast
  from rid have "truthy (args_resume args)" by (simp add: truthy_def)
  with rid pm have "main args stdin completions schedule w =
       run_round (Some st0) (session_spec st0) args' (session_models st0) completions schedule w"
    unfolding main_def by (simp add: Let_def r init_session_keeps)
  with a show ?thesis by blast
qed

lemma main_round:
  assumes m: "main args stdin completions schedule w = Inr (out, w')" and n: "sessions_nonempty w"
  shows "\<exists>ss sp args' models w1.
     run_round ss sp args' models completions schedule w1 = Inr (out, w') \<and> sp \<noteq> [] \<and>
     sessions_nonempty w1"
proof (cases "truthy (args_resume args)")
  case True
  then obtain rid where rid: "args_resume args = Some rid" "rid \<noteq> []"
    by (auto simp: truthy_def split: option.splits)
  from m have pm: "parse_models (args_models args) \<noteq> []"
    by (auto simp: main_def Let_def split: if_splits)
  from m True rid pm obtain st0 where st0: "sessions w rid = Some st0"
    by (cases "sessions w rid") (auto simp: main_def Let_def resume_def load_def)
  from main_resume [OF rid st0 pm] m obtain args' where
    "run_round (Some st0) (session_spec st0) args' (session_models st0) completions schedule w =
       Inr (out, w')" by metis
  moreover from n st0 have "session_spec st0 \<noteq> []" by (auto simp: sessions_nonempty_def)
  ultimately show ?thesis using n by blast
next
  case False
  from m have pm: "parse_models (args_models args) \<noteq> []"
    by (auto simp: main_def Let_def split: if_splits)
  from m False pm have sp: "strip stdin \<noteq> []"
    by (auto simp: main_def Let_def read_stdin_def split: if_splits)
  from m False pm sp obtain ss' w1 where
    i: "init_session None (strip stdin) args (parse_models (args_models args)) w = Inr (ss', w1)"
    by (cases "init_session None (strip stdin) args (parse_models (args_models args)) w")
       (auto simp: main_def Let_def read_stdin_def)
  from m False pm sp i have "run_round ss' (strip stdin) args (parse_models (args_models args))
      completions schedule w1 = Inr (out, w')"
    by (simp add: main_def Let_def read_stdin_def)
  moreover from n sp i have "sessions_nonempty w1" by (rule init_session_nonempty)
  ultimately show ?thesis using sp by blast
qed

lemma run_round_nonempty:
  assumes r: "run_round ss sp args models completions schedule w = Inr (out, w')"
    and sp: "sp \<noteq> []" and n: "sessions_nonempty w"
  shows "out_latest_spec out \<noteq> [] \<and> sessions_nonempty w'"
proof -
  note res = run_round_result [OF r]
  from res sp have l: "out_latest_spec out \<noteq> []" by (simp add: latest_spec_nonempty)
  from res n l have "sessions_nonempty w'"
    by (cases ss) (auto simp: sessions_nonempty_def persisted_def)
  with l show ?thesis by simp
qed

lemma extract_spec_empty_examples:
  "extract_spec ''[SPEC][/SPEC]'' = Some []"
  "extract_spec ''[SPEC]   [/SPEC]'' = Some []"
  "extract_spec ''[/SPEC] x [SPEC]'' = Some []"
  by (simp_all add: extract_spec_def contains_def find_str_def slice_def strip_def isspace_def
      whitespace_def)

lemma load_updated: "sessions w' = m(sid \<mapsto> st) \<Longrightarrow> load sid w' = Inr st"
  by (simp add: load_def)

lemma persisted_fields:
  "session_id (persisted st out t) = session_id st"
  "session_round (persisted st out t) = out_round out + 1"
  "session_spec (persisted st out t) = out_latest_spec out"
  "history (persisted st out t) = history st @
     [\<lparr>entry_round = out_round out, entry_all_agreed = out_all_agreed out,
       entry_models = map summary (out_results out)\<rparr>]"
  by (simp_all add: persisted_def)

lemma created_fields:
  "session_id (created sid sp args models t t') = sid"
  "history (created sid sp args models t t') = []"
  "session_spec (created sid sp args models t t') = sp"
  by (simp_all add: created_def)

lemma main_fresh_persists:
  assumes h: "\<not> truthy (args_resume args)" "args_session args = Some sid" "sid \<noteq> []"
      "parse_models (args_models args) \<noteq> []" "strip stdin \<noteq> []"
      "session_writable w sid" "checkpoint_writable w (sid @ ''-'', args_round args)"
  shows "\<exists>out w' st.
         main args stdin completions schedule w = Inr (out, w') \<and> load sid w' = Inr st \<and>
         session_round st = args_round args + 1 \<and>
         session_spec st = out_latest_spec out \<and>
         history st = [\<lparr>entry_round = args_round args, entry_all_agreed = out_all_agreed out,
                        entry_models = map summary (out_results out)\<rparr>]"
proof -
  define st1 where "st1 = created sid (strip stdin) args (parse_models (args_models args))
                (clock w (ticks w)) (clock w (Suc (ticks w)))"
  define w1 where "w1 = w\<lparr>ticks := Suc (Suc (ticks w)), sessions := (sessions w)(sid \<mapsto> st1)\<rparr>"
  from h have m: "main args stdin completions schedule w =
      run_round (Some st1) (strip stdin) args (parse_models (args_models args)) completions
        schedule w1"
    unfolding st1_def w1_def by (simp add: main_fresh)
  have wr: "session_id st1 = sid" "session_writable w1 = session_writable w"
    "checkpoint_writable w1 = checkpoint_writable w"
    by (simp_all add: st1_def w1_def created_fields)
  from h have "\<exists>out w'. run_round (Some st1) (strip stdin) args
      (parse_models (args_models args)) completions schedule w1 = Inr (out, w')"
    by (intro run_round_defined_session) (simp_all add: wr)
  then obtain out w' where r: "run_round (Some st1) (strip stdin) args
      (parse_models (args_models args)) completions schedule w1 = Inr (out, w')"
    by blast
  note res = run_round_result [OF r]
  define st where "st = persisted st1 out (clock w1 (ticks w1))"
  from res have "sessions w' = (sessions w1)(sid \<mapsto> st)"
    by (simp add: st_def st1_def created_fields)
  then have l: "load sid w' = Inr st" by (rule load_updated)
  from res have ro: "out_round out = args_round args" by simp
  have "session_round st = args_round args + 1"
    and "session_spec st = out_latest_spec out"
    and "history st = [\<lparr>entry_round = args_round args, entry_all_agreed = out_all_agreed out,
                        entry_models = map summary (out_results out)\<rparr>]"
    by (simp_all add: st_def persisted_fields ro st1_def created_fields)
  with m r l show ?thesis by auto
qed

text \<open>
  Claim C9, as the code has it. When the action runs with \<open>--session sid\<close> on a
  non-empty strategy and a non-empty roster, and the session file and the checkpoint can
  be written, it creates the session, runs one round and persists it; loading \<open>sid\<close>
  afterwards gives the round number of the run plus one (2 after round 1), the strategy
  chosen by that round, and a history of exactly one entry that records the round number,
  the consensus flag and (model, agreed, error) for each response, whatever was stored
  under \<open>sid\<close> before. When the session file or the checkpoint cannot be written, the
  action ends with the exception of the write. When the action resumes a stored session, the persisted round
  number is the stored one plus one and the history is the stored history with one entry
  appended.
\<close>

theorem session_round_trip:
  "(\<not> truthy (args_resume args) \<and> args_session args = Some sid \<and> sid \<noteq> [] \<and>
    parse_models (args_models args) \<noteq> [] \<and> strip stdin \<noteq> [] \<and>
    session_writable w sid \<and> checkpoint_writable w (sid @ ''-'', args_round args) \<longrightarrow>
      (\<exists>out w' st.
         main args stdin completions schedule w = Inr (out, w') \<and> load sid w' = Inr st \<and>
         session_round st = args_round args + 1 \<and>
         (args_round args = 1 \<longrightarrow> session_round st = 2) \<and>
         session_spec st = out_latest_spec out \<and>
         history st = [\<lparr>entry_round = args_round args, entry_all_agreed = out_all_agreed out,
                        entry_models = map summary (out_results out)\<rparr>])) \<and>
   (\<not> truthy (args_resume args) \<and> args_session args = Some sid \<and> sid \<noteq> [] \<and>
    parse_models (args_models args) \<noteq> [] \<and> strip stdin \<noteq> [] \<and>
    (\<not> session_writable w sid \<or> \<not> checkpoint_writable w (sid @ ''-'', args_round args)) \<longrightarrow>
      main args stdin completions schedule w = Inl OSError) \<and>
   (args_resume args = Some rid \<and> rid \<noteq> [] \<and> sessions w rid = Some st0 \<and>
    session_models st0 \<noteq> [] \<and> parse_models (args_models args) \<noteq> [] \<and>
    session_id st0 \<noteq> [] \<and> session_writable w (session_id st0) \<and>
    checkpoint_writable w (session_id st0 @ ''-'', session_round st0) \<longrightarrow>
      (\<exists>out w' st.
         main args stdin completions schedule w = Inr (out, w') \<and>
         load (session_id st0) w' = Inr st \<and>
         session_round st = session_round st0 + 1 \<and>
         session_spec st = out_latest_spec out \<and>
         history st = history st0 @
           [\<lparr>entry_round = session_round st0, entry_all_agreed = out_all_agreed out,
             entry_models = map summary (out_results out)\<rparr>]))"
proof (intro conjI impI)
  assume h: "\<not> truthy (args_resume args) \<and> args_session args = Some sid \<and> sid \<noteq> [] \<and>
    parse_models (args_models args) \<noteq> [] \<and> strip stdin \<noteq> [] \<and>
    session_writable w sid \<and> checkpoint_writable w (sid @ ''-'', args_round args)"
  then obtain out w' st where
    "main args stdin completions schedule w = Inr (out, w')" "load sid w' = Inr st"
    "session_round st = args_round args + 1" "session_spec st = out_latest_spec out"
    "history st = [\<lparr>entry_round = args_round args, entry_all_agreed = out_all_agreed out,
                        entry_models = map summary (out_results out)\<rparr>]"
    using main_fresh_persists [of args sid stdin w completions schedule] by blast
  then show "\<exists>out w' st.
         main args stdin completions schedule w = Inr (out, w') \<and> load sid w' = Inr st \<and>
         session_round st = args_round args + 1 \<and>
         (args_round args = 1 \<longrightarrow> session_round st = 2) \<and>
         session_spec st = out_latest_spec out \<and>
         history st = [\<lparr>entry_round = args_round args, entry_all_agreed = out_all_agreed out,
                        entry_models = map summary (out_results out)\<rparr>]"
    by auto
next
  assume h: "\<not> truthy (args_resume args) \<and> args_session args = Some sid \<and> sid \<noteq> [] \<and>
    parse_models (args_models args) \<noteq> [] \<and> strip stdin \<noteq> [] \<and>
    (\<not> session_writable w sid \<or> \<not> checkpoint_writable w (sid @ ''-'', args_round args))"
  show "main args stdin completions schedule w = Inl OSError"
  proof (cases "session_writable w sid")
    case False
    with h show ?thesis by (simp add: main_fresh_unwritable)
  next
    case True
    with h have "main args stdin completions schedule w =
      run_round
       (Some (created sid (strip stdin) args (parse_models (args_models args))
                (clock w (ticks w)) (clock w (Suc (ticks w)))))
       (strip stdin) args (parse_models (args_models args)) completions schedule
       (w\<lparr>ticks := Suc (Suc (ticks w)),
          sessions := (sessions w)
            (sid \<mapsto> created sid (strip stdin) args (parse_models (args_models args))
                     (clock w (ticks w)) (clock w (Suc (ticks w))))\<rparr>)"
      by (simp add: main_fresh)
    also from h True have "\<dots> = Inl OSError"
      by (intro run_round_unwritable) (simp_all add: created_fields)
    finally show ?thesis .
  qed
next
  assume h: "args_resume args = Some rid \<and> rid \<noteq> [] \<and> sessions w rid = Some st0 \<and>
    session_models st0 \<noteq> [] \<and> parse_models (args_models args) \<noteq> [] \<and>
    session_id st0 \<noteq> [] \<and> session_writable w (session_id st0) \<and>
    checkpoint_writable w (session_id st0 @ ''-'', session_round st0)"
  then obtain args' where a: "args_round args' = session_round st0"
    and m: "main args stdin completions schedule w =
       run_round (Some st0) (session_spec st0) args' (session_models st0) completions schedule w"
    using main_resume [of args rid w st0 stdin completions schedule] by blast
  from h a have "\<exists>out w'. run_round (Some st0) (session_spec st0) args'
      (session_models st0) completions schedule w = Inr (out, w')"
    by (intro run_round_defined_session) simp_all
  then obtain out w' where r: "run_round (Some st0) (session_spec st0) args'
      (session_models st0) completions schedule w = Inr (out, w')"
    by blast
  note res = run_round_result [OF r]
  define st where "st = persisted st0 out (clock w (ticks w))"
  from res have "sessions w' = (sessions w)(session_id st0 \<mapsto> st)"
    by (simp add: st_def)
  then have l: "load (session_id st0) w' = Inr st" by (rule load_updated)
  from res a have ro: "out_round out = session_round st0" by simp
  have "session_round st = session_round st0 + 1"
    and "session_spec st = out_latest_spec out"
    and "history st = history st0 @
           [\<lparr>entry_round = session_round st0, entry_all_agreed = out_all_agreed out,
             entry_models = map summary (out_results out)\<rparr>]"
    by (simp_all add: st_def persisted_fields ro)
  with m r l show "\<exists>out w' st.
         main args stdin completions schedule w = Inr (out, w') \<and>
         load (session_id st0) w' = Inr st \<and>
         session_round st = session_round st0 + 1 \<and>
         session_spec st = out_latest_spec out \<and>
         history st = history st0 @
           [\<lparr>entry_round = session_round st0, entry_all_agreed = out_all_agreed out,
             entry_models = map summary (out_results out)\<rparr>]"
    by auto
qed

lemma example_args_facts:
  "\<not> truthy (args_resume example_args)" "args_session example_args = Some ''s1''"
  "parse_models (args_models example_args) = [''critic1'', ''critic2'']"
  "args_round example_args = 1" "strip ''X'' = ''X''"
  by (simp_all add: example_args_def truthy_def parse_models_def strip_def isspace_def
      whitespace_def)

lemma resume_args_facts:
  "args_resume resume_args = Some ''s1''" "sessions stored_world ''s1'' = Some example_session"
  "parse_models (args_models resume_args) = [''critic1'', ''critic2'']"
  "session_models example_session = [''critic1'', ''critic2'']"
  "session_id example_session = ''s1''" "session_round example_session = 1"
  "history example_session = []"
  "session_writable stored_world ''s1''" "checkpoint_writable stored_world (''s1-'', 1)"
  by (simp_all add: resume_args_def example_args_def stored_world_def initial_world_def
      example_session_def parse_models_def strip_def isspace_def whitespace_def)

lemma slash_args_facts:
  "\<not> truthy (args_resume slash_args)" "args_session slash_args = Some ''a/b''"
  "parse_models (args_models slash_args) = [''critic1'', ''critic2'']"
  "\<not> session_writable initial_world ''a/b''"
  by (simp_all add: slash_args_def example_args_def initial_world_def truthy_def parse_models_def
      strip_def isspace_def whitespace_def)

lemma old_world_facts:
  "sessions old_world ''s1'' = Some old_session"
  "session_writable old_world ''s1''" "checkpoint_writable old_world (''s1-'', 1)"
  "session_round old_session = 5" "map entry_round (history old_session) = [4]"
  by (simp_all add: old_world_def old_session_def initial_world_def example_session_def)

text \<open>
  The claim as stated fails when a session is created under an id that is already
  stored: the stored record is replaced, so its round number 5 becomes 2 and its history
  of round 4 is lost.
\<close>

theorem session_round_trip_counterexample:
  "(case main example_args ''X'' scenario [] old_world of
      Inr (out, w') \<Rightarrow>
        (case load ''s1'' w' of
           Inr st \<Rightarrow> (session_round st, map entry_round (history st))
         | Inl e \<Rightarrow> (0, []))
    | Inl e \<Rightarrow> (0, [])) = (2, [1]) \<and>
   (case load ''s1'' old_world of
      Inr st \<Rightarrow> (session_round st, map entry_round (history st))
    | Inl e \<Rightarrow> (0, [])) = (5, [4])"
proof -
  obtain out w' st where "main example_args ''X'' scenario [] old_world = Inr (out, w')"
    and "load ''s1'' w' = Inr st" and "session_round st = args_round example_args + 1"
    and "history st = [\<lparr>entry_round = args_round example_args,
                         entry_all_agreed = out_all_agreed out,
                         entry_models = map summary (out_results out)\<rparr>]"
    using main_fresh_persists [of example_args "''s1''" "''X''" old_world scenario "[]"]
    by (auto simp: example_args_facts old_world_facts)
  then show ?thesis
    by (simp add: example_args_facts load_def old_world_facts)
qed

text \<open>
  A first run that creates \<open>s1\<close>, a run whose session id \<open>a/b\<close> cannot be written, and
  a run that resumes a stored \<open>s1\<close>.
\<close>

theorem session_round_trip_witness:
  "(\<exists>out w' st.
      main example_args ''X'' scenario [] initial_world = Inr (out, w') \<and>
      load ''s1'' w' = Inr st \<and> session_round st = 2 \<and>
      session_spec st = out_latest_spec out \<and> length (history st) = 1) \<and>
   main slash_args ''X'' scenario [] initial_world = Inl OSError \<and>
   (\<exists>out w' st.
      main resume_args [] scenario [] stored_world = Inr (out, w') \<and>
      load ''s1'' w' = Inr st \<and> session_round st = 2 \<and>
      session_spec st = out_latest_spec out \<and> length (history st) = 1)"
proof (intro conjI)
  have "\<exists>out w' st.
      main example_args ''X'' scenario [] initial_world = Inr (out, w') \<and>
      load ''s1'' w' = Inr st \<and> session_round st = 2 \<and>
      session_spec st = out_latest_spec out \<and>
      history st = [\<lparr>entry_round = 1, entry_all_agreed = out_all_agreed out,
                     entry_models = map summary (out_results out)\<rparr>]"
    using session_round_trip
      [where args = example_args and sid = "''s1''" and stdin = "''X''" and completions = scenario
         and schedule = "[]" and w = initial_world, THEN conjunct1]
    by (simp add: example_args_facts example_writable)
  then obtain out w' st where "main example_args ''X'' scenario [] initial_world = Inr (out, w')"
    and "load ''s1'' w' = Inr st" and "session_round st = 2"
    and "session_spec st = out_latest_spec out" and "length (history st) = 1"
    by auto
  then show "\<exists>out w' st.
      main example_args ''X'' scenario [] initial_world = Inr (out, w') \<and>
      load ''s1'' w' = Inr st \<and> session_round st = 2 \<and>
      session_spec st = out_latest_spec out \<and> length (history st) = 1"
    by blast
next
  show "main slash_args ''X'' scenario [] initial_world = Inl OSError"
    using session_round_trip
      [where args = slash_args and sid = "''a/b''" and stdin = "''X''" and completions = scenario
         and schedule = "[]" and w = initial_world, THEN conjunct2, THEN conjunct1]
    by (simp add: slash_args_facts example_args_facts)
next
  have "\<exists>out w' st.
      main resume_args [] scenario [] stored_world = Inr (out, w') \<and>
      load ''s1'' w' = Inr st \<and> session_round st = 2 \<and>
      session_spec st = out_latest_spec out \<and>
      history st = [\<lparr>entry_round = 1, entry_all_agreed = out_all_agreed out,
                     entry_models = map summary (out_results out)\<rparr>]"
    using session_round_trip
      [where args = resume_args and rid = "''s1''" and ?st0.0 = example_session
         and stdin = "[]" and completions = scenario and schedule = "[]" and w = stored_world,
         THEN conjunct2, THEN conjunct2]
    by (simp add: resume_args_facts)
  then obtain out w' st where "main resume_args [] scenario [] stored_world = Inr (out, w')"
    and "load ''s1'' w' = Inr st" and "session_round st = 2"
    and "session_spec st = out_latest_spec out" and "length (history st) = 1"
    by auto
  then show "\<exists>out w' st.
      main resume_args [] scenario [] stored_world = Inr (out, w') \<and>
      load ''s1'' w' = Inr st \<and> session_round st = 2 \<and>
      session_spec st = out_latest_spec out \<and> length (history st) = 1"
    by blast
qed

text \<open>
  Claim C10. The strategy chosen for the next round is never empty, given that no stored
  session has an empty strategy, which the action preserves (and standard input is
  rejected when it strips to nothing). A response whose extraction is the empty string
  is passed over as if it had none: the strategy is unchanged unless a response carries
  a non-empty extraction, and a changed strategy is the non-empty extraction of one of
  the responses. Adjacent markers and an end marker before the begin marker both yield
  the empty string.
\<close>

theorem next_strategy_never_empty:
  "(sessions_nonempty w \<and> main args stdin completions schedule w = Inr (out, w') \<longrightarrow>
      out_latest_spec out \<noteq> [] \<and> sessions_nonempty w') \<and>
   latest_spec cur (map (\<lambda>r. if spec r = Some [] then r\<lparr>spec := None\<rparr> else r) rs) =
     latest_spec cur rs \<and>
   ((\<forall>r\<in>set rs. spec r = None \<or> spec r = Some []) \<longrightarrow> latest_spec cur rs = cur) \<and>
   (latest_spec cur rs \<noteq> cur \<longrightarrow>
      (\<exists>r\<in>set rs. spec r = Some (latest_spec cur rs)) \<and> latest_spec cur rs \<noteq> []) \<and>
   extract_spec ''[SPEC][/SPEC]'' = Some [] \<and>
   extract_spec ''[/SPEC] x [SPEC]'' = Some []"
proof (intro conjI impI)
  assume h: "sessions_nonempty w \<and> main args stdin completions schedule w = Inr (out, w')"
  then obtain ss sp args' models w1 where
    "run_round ss sp args' models completions schedule w1 = Inr (out, w')" "sp \<noteq> []"
    "sessions_nonempty w1"
    using main_round [of args stdin completions schedule w out w'] by blast
  then have "out_latest_spec out \<noteq> [] \<and> sessions_nonempty w'" by (rule run_round_nonempty)
  then show "out_latest_spec out \<noteq> []" and "sessions_nonempty w'" by simp_all
next
  show "latest_spec cur (map (\<lambda>r. if spec r = Some [] then r\<lparr>spec := None\<rparr> else r) rs) =
     latest_spec cur rs" by (rule latest_spec_skips_empty)
next
  assume "\<forall>r\<in>set rs. spec r = None \<or> spec r = Some []"
  then have "\<forall>r\<in>set rs. \<not> truthy (spec r)" by (auto simp: truthy_def)
  then show "latest_spec cur rs = cur" by (rule latest_spec_none)
next
  assume c: "latest_spec cur rs \<noteq> cur"
  from latest_spec_changed [OF c]
  show "\<exists>r\<in>set rs. spec r = Some (latest_spec cur rs)" and "latest_spec cur rs \<noteq> []"
    by simp_all
next
  show "extract_spec ''[SPEC][/SPEC]'' = Some []" by (rule extract_spec_empty_examples)
  show "extract_spec ''[/SPEC] x [SPEC]'' = Some []" by (rule extract_spec_empty_examples)
qed

lemma sessions_nonempty_initial: "sessions_nonempty initial_world"
  by (simp add: sessions_nonempty_def initial_world_def)

lemma main_example_defined:
  "\<exists>out w'. main example_args ''   [SPEC][/SPEC] X '' scenario [] initial_world = Inr (out, w')"
proof -
  have s: "strip ''   [SPEC][/SPEC] X '' = ''[SPEC][/SPEC] X''"
    by (simp add: strip_def isspace_def whitespace_def)
  have "\<exists>out w' st.
      main example_args ''   [SPEC][/SPEC] X '' scenario [] initial_world = Inr (out, w') \<and>
      load ''s1'' w' = Inr st \<and> session_round st = args_round example_args + 1 \<and>
      session_spec st = out_latest_spec out \<and>
      history st = [\<lparr>entry_round = args_round example_args,
                     entry_all_agreed = out_all_agreed out,
                     entry_models = map summary (out_results out)\<rparr>]"
    by (rule main_fresh_persists) (simp_all add: example_args_facts example_writable s)
  then show ?thesis by blast
qed

text \<open>
  A first run from the empty store, a response whose extraction is empty, and a response
  that changes the strategy.
\<close>

theorem next_strategy_never_empty_witness:
  "sessions_nonempty initial_world \<and>
   (\<exists>out w'. main example_args ''   [SPEC][/SPEC] X '' scenario [] initial_world = Inr (out, w') \<and>
      out_latest_spec out \<noteq> [] \<and> sessions_nonempty w') \<and>
   latest_spec ''X'' [(error_response ''A'' None)\<lparr>spec := Some []\<rparr>] = ''X'' \<and>
   latest_spec ''X'' [(error_response ''A'' None)\<lparr>spec := Some []\<rparr>,
                     (error_response ''B'' None)\<lparr>spec := Some ''Y''\<rparr>] \<noteq> []"
proof -
  obtain out w' where
    m: "main example_args ''   [SPEC][/SPEC] X '' scenario [] initial_world = Inr (out, w')"
    using main_example_defined by blast
  from next_strategy_never_empty
    [where w = initial_world and args = example_args and stdin = "''   [SPEC][/SPEC] X ''"
       and completions = scenario and schedule = "[]" and out = out and w' = w'] m
  have a: "out_latest_spec out \<noteq> [] \<and> sessions_nonempty w'"
    by (simp add: sessions_nonempty_initial)
  from next_strategy_never_empty
    [where cur = "''X''" and rs = "[(error_response ''A'' None)\<lparr>spec := Some []\<rparr>]"]
  have b: "latest_spec ''X'' [(error_response ''A'' None)\<lparr>spec := Some []\<rparr>] = ''X''"
    by simp
  have ne: "latest_spec ''X'' [(error_response ''A'' None)\<lparr>spec := Some []\<rparr>,
                     (error_response ''B'' None)\<lparr>spec := Some ''Y''\<rparr>] \<noteq> ''X''"
    by simp
  from next_strategy_never_empty
    [where cur = "''X''" and rs = "[(error_response ''A'' None)\<lparr>spec := Some []\<rparr>,
                     (error_response ''B'' None)\<lparr>spec := Some ''Y''\<rparr>]"] ne
  have c: "latest_spec ''X'' [(error_response ''A'' None)\<lparr>spec := Some []\<rparr>,
                     (error_response ''B'' None)\<lparr>spec := Some ''Y''\<rparr>] \<noteq> []"
    by blast
  from a b c m sessions_nonempty_initial show ?thesis by blast
qed

section \<open>Further properties of the model\<close>

text \<open>Two futures complete in one of two orders.\<close>

lemma as_completed_Nil: "as_completed ks [] = []"
  by (cases ks) simp_all

lemma as_completed_single: "as_completed ks [a] = [a]"
  by (cases ks) (simp_all add: Let_def as_completed_Nil)

lemma as_completed_two: "as_completed ks [a, b] = [a, b] \<or> as_completed ks [a, b] = [b, a]"
proof (cases ks)
  case Nil
  then show ?thesis by simp
next
  case (Cons k ks')
  have "k mod Suc (Suc 0) = 0 \<or> k mod Suc (Suc 0) = Suc 0" by arith
  then show ?thesis
  proof
    assume "k mod Suc (Suc 0) = 0"
    with Cons show ?thesis by (simp add: Let_def as_completed_single)
  next
    assume "k mod Suc (Suc 0) = Suc 0"
    with Cons show ?thesis by (simp add: Let_def as_completed_single)
  qed
qed

text \<open>
  The scenario of the specification does not depend on the order of completion, since
  only one critic offers a revision.
\<close>

lemma scenario_any_schedule:
  "latest_spec ''V1'' (successful (round_results [''critic1'', ''critic2''] scenario schedule)) =
     ''Revised V2'' \<and>
   \<not> all_agreed (round_results [''critic1'', ''critic2''] scenario schedule)"
proof -
  let ?a = "response_of ''critic1'' (scenario 0)" and ?b = "response_of ''critic2'' (scenario (Suc 0))"
  have "round_results [''critic1'', ''critic2''] scenario schedule = as_completed schedule [?a, ?b]"
    by (simp add: round_results_def upt_2)
  with as_completed_two [of schedule ?a ?b]
  have "round_results [''critic1'', ''critic2''] scenario schedule = [?a, ?b] \<or>
        round_results [''critic1'', ''critic2''] scenario schedule = [?b, ?a]" by simp
  then show ?thesis
    by (auto simp: successful_def all_agreed_def truthy_def scenario_responses)
qed

text \<open>
  The two consensus examples of the specification, for every order of completion: an
  error with a non-empty message is left out of the vote, a critique blocks consensus.
\<close>

lemma consensus_examples:
  "all_agreed (round_results [''A'', ''B''] agree_and_failure schedule)"
  "\<not> all_agreed (round_results [''A'', ''B''] agree_and_critique schedule)"
proof -
  let ?a = "response_of ''A'' (agree_and_failure 0)" and ?b = "response_of ''B'' (agree_and_failure (Suc 0))"
  have a: "agreed ?a" "error ?a = None" "error ?b = Some ''timeout''"
    by (simp_all add: response_of_Completed [where usage = None] agree_and_failure_def
        response_of_Raised [where ?e0.0 = "''timeout''" and ?e1.0 = "''timeout''"
          and ?e2.0 = "''timeout''"] error_response_def contains_def)
  have "round_results [''A'', ''B''] agree_and_failure schedule = as_completed schedule [?a, ?b]"
    by (simp add: round_results_def upt_2)
  with as_completed_two [of schedule ?a ?b]
  have "round_results [''A'', ''B''] agree_and_failure schedule = [?a, ?b] \<or>
        round_results [''A'', ''B''] agree_and_failure schedule = [?b, ?a]" by simp
  then show "all_agreed (round_results [''A'', ''B''] agree_and_failure schedule)"
    by (auto simp: successful_def all_agreed_def truthy_def a)
next
  let ?a = "response_of ''A'' (agree_and_critique 0)"
    and ?b = "response_of ''B'' (agree_and_critique (Suc 0))"
  have a: "agreed ?a" "error ?a = None" "error ?b = None" "\<not> agreed ?b"
    by (simp_all add: response_of_Completed [where usage = None] agree_and_critique_def
        contains_def)
  have "round_results [''A'', ''B''] agree_and_critique schedule = as_completed schedule [?a, ?b]"
    by (simp add: round_results_def upt_2)
  with as_completed_two [of schedule ?a ?b]
  have "round_results [''A'', ''B''] agree_and_critique schedule = [?a, ?b] \<or>
        round_results [''A'', ''B''] agree_and_critique schedule = [?b, ?a]" by simp
  then show "\<not> all_agreed (round_results [''A'', ''B''] agree_and_critique schedule)"
    by (auto simp: successful_def all_agreed_def truthy_def a)
qed

end
